theory Spec2Isabelle
  imports Complex_Main "HOL-Library.Sublist"
begin

section \<open>Python values shared by all modules\<close>

text \<open>
  A Python \<open>str\<close> is modelled as a HOL \<open>string\<close>. Text outside ASCII (the emoji of the
  report headers, the multiplication sign) is written as its UTF-8 bytes.
\<close>

definition nl :: string where
  "nl = [CHR 0x0A]"

definition emoji_bar_chart :: string where
  "emoji_bar_chart = [CHR 0xF0, CHR 0x9F, CHR 0x93, CHR 0x8A]"

definition emoji_clipboard :: string where
  "emoji_clipboard = [CHR 0xF0, CHR 0x9F, CHR 0x93, CHR 0x8B]"

definition emoji_chart_up :: string where
  "emoji_chart_up = [CHR 0xF0, CHR 0x9F, CHR 0x93, CHR 0x88]"

definition emoji_cross :: string where
  "emoji_cross = [CHR 0xE2, CHR 0x9D, CHR 0x8C]"

definition emoji_magnifier :: string where
  "emoji_magnifier = [CHR 0xF0, CHR 0x9F, CHR 0x94, CHR 0x8D]"

definition emoji_check :: string where
  "emoji_check = [CHR 0xE2, CHR 0x9C, CHR 0x85]"

definition emoji_target :: string where
  "emoji_target = [CHR 0xF0, CHR 0x9F, CHR 0x8E, CHR 0xAF]"

definition emoji_link :: string where
  "emoji_link = [CHR 0xF0, CHR 0x9F, CHR 0x94, CHR 0x97]"

definition emoji_trophy :: string where
  "emoji_trophy = [CHR 0xF0, CHR 0x9F, CHR 0x8F, CHR 0x86]"

definition emoji_bulb :: string where
  "emoji_bulb = [CHR 0xF0, CHR 0x9F, CHR 0x92, CHR 0xA1]"

definition times_sign :: string where
  "times_sign = [CHR 0xC3, CHR 0x97]"

text \<open>
  An exception caught by \<open>except Exception as e\<close>. \<open>HTTPException\<close> is the class the
  handlers raise themselves and \<open>ImportError\<close> the one class a tool catches by name; every
  other exception is \<open>Exception\<close>. The last two carry the text that \<open>str(e)\<close> gives.
\<close>

datatype exn =
    HTTPException (status_code: nat) (detail: string)
  | ImportError string
  | Exception string

text \<open>\<open>needle in hay\<close> on two Python strings: the substring test.\<close>

fun str_contains :: "string \<Rightarrow> string \<Rightarrow> bool" where
  "str_contains [] needle = (needle = [])"
| "str_contains (c # cs) needle = (prefix needle (c # cs) \<or> str_contains cs needle)"

text \<open>\<open>any(word in query_lower for word in words)\<close>.\<close>

definition any_word_in :: "string \<Rightarrow> string list \<Rightarrow> bool" where
  "any_word_in query_lower ws = list_ex (\<lambda>word. str_contains query_lower word) ws"

text \<open>\<open>str(n)\<close> of a non-negative Python int.\<close>

definition digit_char :: "nat \<Rightarrow> char" where
  "digit_char d = ''0123456789'' ! (d mod 10)"

fun str_nat :: "nat \<Rightarrow> string" where
  "str_nat n = (if n < 10 then [digit_char n] else str_nat (n div 10) @ [digit_char (n mod 10)])"

declare str_nat.simps [simp del]

text \<open>\<open>sep.join(xs)\<close>.\<close>

fun join :: "string \<Rightarrow> string list \<Rightarrow> string" where
  "join sep [] = []"
| "join sep [x] = x"
| "join sep (x # y # ys) = x @ sep @ join sep (y # ys)"

text \<open>
  The string methods of the interpreter whose results depend on the Unicode tables
  (\<open>str.lower\<close>, \<open>str.upper\<close>, \<open>str.split()\<close>, \<open>str.strip()\<close>, \<open>str.splitlines()\<close>,
  \<open>re.findall(r'\d+', s)\<close>, \<open>int(s)\<close> on a run of digits) or that count characters
  (\<open>len(s)\<close>, \<open>s[:n]\<close>) are parameters of the model. \<open>ascii_py\<close> below is what they do on
  ASCII text.
\<close>

record py =
  str_lower :: "string \<Rightarrow> string"
  str_upper :: "string \<Rightarrow> string"
  str_split :: "string \<Rightarrow> string list"
  str_strip :: "string \<Rightarrow> string"
  str_splitlines :: "string \<Rightarrow> string list"
  str_len :: "string \<Rightarrow> nat"
  str_slice_to :: "nat \<Rightarrow> string \<Rightarrow> string"
  findall_digits :: "string \<Rightarrow> string list"
  int_of_digits :: "string \<Rightarrow> nat"

definition lower_char :: "char \<Rightarrow> char" where
  "lower_char c =
     (let n = (of_char c :: nat)
      in if 65 \<le> n \<and> n \<le> 90
         then (case c of Char b0 b1 b2 b3 b4 b5 b6 b7 \<Rightarrow> Char b0 b1 b2 b3 b4 True b6 b7)
         else c)"

definition upper_char :: "char \<Rightarrow> char" where
  "upper_char c =
     (let n = (of_char c :: nat)
      in if 97 \<le> n \<and> n \<le> 122
         then (case c of Char b0 b1 b2 b3 b4 b5 b6 b7 \<Rightarrow> Char b0 b1 b2 b3 b4 False b6 b7)
         else c)"

definition is_space :: "char \<Rightarrow> bool" where
  "is_space c = (c \<in> set [CHR 0x20, CHR 0x09, CHR 0x0A, CHR 0x0B, CHR 0x0C, CHR 0x0D])"

definition is_digit :: "char \<Rightarrow> bool" where
  "is_digit c = (let n = (of_char c :: nat) in 48 \<le> n \<and> n \<le> 57)"

text \<open>Maximal runs of the characters satisfying \<open>p\<close>, left to right.\<close>

fun runs :: "(char \<Rightarrow> bool) \<Rightarrow> string \<Rightarrow> string \<Rightarrow> string list" where
  "runs p cur [] = (if cur = [] then [] else [cur])"
| "runs p cur (c # cs) =
     (if p c then runs p (cur @ [c]) cs
      else if cur = [] then runs p [] cs
      else cur # runs p [] cs)"

text \<open>Lines end at \<open>\n\<close>, \<open>\r\<close> or \<open>\r\n\<close>; a line end at the very end opens no last line.\<close>

fun ascii_splitlines :: "string \<Rightarrow> string \<Rightarrow> string list" where
  "ascii_splitlines cur [] = (if cur = [] then [] else [cur])"
| "ascii_splitlines cur [c] =
     (if c = CHR 0x0A \<or> c = CHR 0x0D then [cur] else [cur @ [c]])"
| "ascii_splitlines cur (c # d # cs) =
     (if c = CHR 0x0D \<and> d = CHR 0x0A then cur # ascii_splitlines [] cs
      else if c = CHR 0x0A \<or> c = CHR 0x0D then cur # ascii_splitlines [] (d # cs)
      else ascii_splitlines (cur @ [c]) (d # cs))"

definition ascii_strip :: "string \<Rightarrow> string" where
  "ascii_strip s = rev (dropWhile is_space (rev (dropWhile is_space s)))"

definition ascii_int :: "string \<Rightarrow> nat" where
  "ascii_int ds = foldl (\<lambda>acc c. 10 * acc + (of_char c - 48)) 0 ds"

definition ascii_py :: py where
  "ascii_py = \<lparr> str_lower = map lower_char,
                str_upper = map upper_char,
                str_split = runs (\<lambda>c. \<not> is_space c) [],
                str_strip = ascii_strip,
                str_splitlines = ascii_splitlines [],
                str_len = length,
                str_slice_to = take,
                findall_digits = runs is_digit [],
                int_of_digits = ascii_int \<rparr>"


text \<open>
  \<open>str(e)\<close>. An \<open>HTTPException\<close> prints as its status code and detail (Starlette's
  \<open>__str__\<close>); any other exception is carried as that text already.
\<close>

fun str_exn :: "exn \<Rightarrow> string" where
  "str_exn (HTTPException code d) = str_nat code @ '': '' @ d"
| "str_exn (ImportError msg) = msg"
| "str_exn (Exception msg) = msg"

text \<open>Sequencing of statements that may raise: the first exception ends the block.\<close>

definition bind_exn :: "exn + 'a \<Rightarrow> ('a \<Rightarrow> exn + 'b) \<Rightarrow> exn + 'b" where
  "bind_exn m f = (case m of Inl e \<Rightarrow> Inl e | Inr v \<Rightarrow> f v)"

section \<open>data_analysis_tools.py\<close>

text \<open>
  The pandas calls of \<open>analyze_data_with_sql\<close>, as parameters over an abstract frame type
  \<open>'df\<close>. \<open>read_csv\<close> raises on text it cannot parse; the group-by, \<open>nlargest\<close> and dtype
  comparison calls raise on frames they do not accept; the other calls are defined on
  every frame.
\<close>

record 'df pandas =
  read_csv :: "string \<Rightarrow> exn + 'df"
  n_rows :: "'df \<Rightarrow> nat"
  n_cols :: "'df \<Rightarrow> nat"
  columns :: "'df \<Rightarrow> string list"
  head_to_string :: "'df \<Rightarrow> nat \<Rightarrow> string"
  dtype_str :: "'df \<Rightarrow> string \<Rightarrow> string"
  null_count :: "'df \<Rightarrow> string \<Rightarrow> nat"
  numeric_cols :: "'df \<Rightarrow> string list"
  describe_to_string :: "'df \<Rightarrow> string"
  missing_info_to_string :: "'df \<Rightarrow> string"
  nunique_to_string :: "'df \<Rightarrow> string"
  corr_to_string :: "'df \<Rightarrow> string"
  groupby_size_to_string :: "'df \<Rightarrow> string \<Rightarrow> exn + string"
  groupby_mean_to_string :: "'df \<Rightarrow> string \<Rightarrow> exn + string"
  groupby_agg_to_string :: "'df \<Rightarrow> string \<Rightarrow> exn + string"
  dtype_in_number :: "'df \<Rightarrow> string \<Rightarrow> exn + bool"
  nlargest_to_string :: "'df \<Rightarrow> nat \<Rightarrow> string \<Rightarrow> exn + string"
  repr_str_list :: "string list \<Rightarrow> string"
  dtypes_repr :: "'df \<Rightarrow> string"

text \<open>\<open>**Data Shape**: {df.shape[0]} rows x {df.shape[1]} columns\<close>.\<close>

definition data_shape_line :: "'df pandas \<Rightarrow> 'df \<Rightarrow> string" where
  "data_shape_line L df =
     ''**Data Shape**: '' @ str_nat (n_rows L df) @ '' rows '' @ times_sign @ '' ''
       @ str_nat (n_cols L df) @ '' columns''"

text \<open>Lines 39-49: the branch of the first test that returns.\<close>

definition first_rows_branch :: "py \<Rightarrow> 'df pandas \<Rightarrow> 'df \<Rightarrow> string \<Rightarrow> string" where
  "first_rows_branch P L df user_query =
     (let numbers = findall_digits P user_query;
          num_rows = (case numbers of [] \<Rightarrow> 5
                      | d # _ \<Rightarrow> min (int_of_digits P d) (n_rows L df))
      in emoji_bar_chart @ '' First '' @ str_nat num_rows @ '' rows of the data:'' @ nl @ nl
           @ head_to_string L df num_rows @ nl @ nl
           @ data_shape_line L df)"

text \<open>Lines 53-65: column information.\<close>

definition column_info_branch :: "'df pandas \<Rightarrow> 'df \<Rightarrow> string" where
  "column_info_branch L df =
     (let col_info = map (\<lambda>col. ''- **'' @ col @ ''**: '' @ dtype_str L df col @ '' (''
                                   @ str_nat (null_count L df col) @ '' null values)'')
                         (columns L df)
      in emoji_clipboard @ '' Column Information:'' @ nl @ nl
           @ ''**Total Columns**: '' @ str_nat (length (columns L df)) @ nl
           @ data_shape_line L df @ nl @ nl
           @ ''**Column Details**:'' @ nl
           @ join nl col_info)"

text \<open>Lines 69-78: summary statistics.\<close>

definition summary_branch :: "'df pandas \<Rightarrow> 'df \<Rightarrow> string" where
  "summary_branch L df =
     (if length (numeric_cols L df) > 0
      then emoji_chart_up @ '' Summary Statistics for Numeric Columns:'' @ nl @ nl
             @ ''**Numeric Columns**: '' @ repr_str_list L (numeric_cols L df) @ nl @ nl
             @ describe_to_string L df
      else emoji_cross @ '' No numeric columns found in the dataset for statistical analysis.'')"

text \<open>
  Lines 82-98: the missing-value branch. \<open>missing_info\<close> keeps the columns whose null
  count is positive; \<open>missing_data.sum()\<close> adds the counts of all columns.
\<close>

definition missing_values_branch :: "'df pandas \<Rightarrow> 'df \<Rightarrow> string" where
  "missing_values_branch L df =
     (let missing_info = filter (\<lambda>col. null_count L df col > 0) (columns L df)
      in if length missing_info > 0
         then emoji_magnifier @ '' Missing Values Analysis:'' @ nl @ nl
                @ missing_info_to_string L df @ nl @ nl
                @ ''**Total Missing Values**: ''
                @ str_nat (sum_list (map (null_count L df) (columns L df)))
         else emoji_check @ '' No missing values found in the dataset!'')"

text \<open>Lines 102-105: unique values.\<close>

definition unique_branch :: "'df pandas \<Rightarrow> 'df \<Rightarrow> string" where
  "unique_branch L df =
     emoji_target @ '' Unique Values Count:'' @ nl @ nl @ nunique_to_string L df"

text \<open>Lines 109-116: correlations.\<close>

definition correlation_branch :: "'df pandas \<Rightarrow> 'df \<Rightarrow> string" where
  "correlation_branch L df =
     (if length (numeric_cols L df) > 1
      then emoji_link @ '' Correlation Matrix:'' @ nl @ nl @ corr_to_string L df
      else emoji_cross @ '' Need at least 2 numeric columns for correlation analysis.'')"

text \<open>
  Lines 121-141: group-by. The loop looks for a word \<open>by\<close> or \<open>group\<close> followed by a
  column name; \<open>None\<close> is the loop running to its end.
\<close>

definition grouped_result :: "py \<Rightarrow> 'df pandas \<Rightarrow> 'df \<Rightarrow> string \<Rightarrow> string \<Rightarrow> exn + string" where
  "grouped_result P L df query_lower group_col =
     (let header = emoji_bar_chart @ '' Grouped Analysis by '' @ [CHR 0x27] @ group_col
                     @ [CHR 0x27] @ '':'' @ nl @ nl
      in if any_word_in query_lower [''count'', ''sum'']
         then bind_exn (groupby_size_to_string L df group_col) (\<lambda>r. Inr (header @ r))
         else if any_word_in query_lower [''mean'', ''average'']
         then (if length (numeric_cols L df) > 0
               then bind_exn (groupby_mean_to_string L df group_col) (\<lambda>r. Inr (header @ r))
               else Inr (emoji_cross @ '' No numeric columns found for averaging.''))
         else bind_exn (groupby_agg_to_string L df group_col) (\<lambda>r. Inr (header @ r)))"

fun group_loop :: "py \<Rightarrow> 'df pandas \<Rightarrow> 'df \<Rightarrow> string \<Rightarrow> string list \<Rightarrow> exn + string option" where
  "group_loop P L df query_lower (word # group_col # rest) =
     (if str_lower P word \<in> set [''by'', ''group''] \<and> group_col \<in> set (columns L df)
      then bind_exn (grouped_result P L df query_lower group_col) (\<lambda>r. Inr (Some r))
      else group_loop P L df query_lower (group_col # rest))"
| "group_loop P L df query_lower _ = Inr None"

definition group_branch :: "py \<Rightarrow> 'df pandas \<Rightarrow> 'df \<Rightarrow> string \<Rightarrow> string \<Rightarrow> exn + string" where
  "group_branch P L df user_query query_lower =
     bind_exn (group_loop P L df query_lower (str_split P user_query))
       (\<lambda>found. case found of
           Some r \<Rightarrow> Inr r
         | None \<Rightarrow> Inr (emoji_cross @ '' Could not identify grouping column. Please specify ''
                          @ [CHR 0x27] @ ''group by [column_name]'' @ [CHR 0x27] @ ''.''))"

text \<open>Lines 145-169: top values.\<close>

definition top_branch :: "py \<Rightarrow> 'df pandas \<Rightarrow> 'df \<Rightarrow> string \<Rightarrow> string \<Rightarrow> exn + string" where
  "top_branch P L df user_query query_lower =
     (let numbers = findall_digits P user_query;
          n = (case numbers of [] \<Rightarrow> 10 | d # _ \<Rightarrow> int_of_digits P d);
          header = (\<lambda>col. emoji_trophy @ '' Top '' @ str_nat n @ '' values by '' @ [CHR 0x27]
                            @ col @ [CHR 0x27] @ '':'' @ nl @ nl)
      in case find (\<lambda>col. str_contains query_lower (str_lower P col)) (columns L df) of
           Some col \<Rightarrow>
             bind_exn (dtype_in_number L df col) (\<lambda>is_number.
               if is_number
               then bind_exn (nlargest_to_string L df n col) (\<lambda>r. Inr (header col @ r))
               else Inr (header col @ head_to_string L df n))
         | None \<Rightarrow>
             (case numeric_cols L df of
                col0 # _ \<Rightarrow> bind_exn (nlargest_to_string L df n col0) (\<lambda>r. Inr (header col0 @ r))
              | [] \<Rightarrow> Inr (emoji_trophy @ '' Top '' @ str_nat n @ '' rows:'' @ nl @ nl
                            @ head_to_string L df n)))"

text \<open>Lines 173-191: the default response.\<close>

definition data_overview :: "'df pandas \<Rightarrow> 'df \<Rightarrow> string" where
  "data_overview L df =
     emoji_bar_chart @ '' Data Overview:'' @ nl @ nl
       @ ''**Dataset Shape**: '' @ str_nat (n_rows L df) @ '' rows '' @ times_sign @ '' ''
       @ str_nat (n_cols L df) @ '' columns'' @ nl
       @ ''**Columns**: '' @ repr_str_list L (columns L df) @ nl
       @ ''**Data Types**: '' @ dtypes_repr L df @ nl
       @ ''**Missing Values**: '' @ str_nat (sum_list (map (null_count L df) (columns L df)))
       @ '' total'' @ nl @ nl
       @ ''**Sample Data**:'' @ nl
       @ head_to_string L df 5 @ nl @ nl
       @ emoji_bulb @ '' **Try asking for:**'' @ nl
       @ ''- \"Show me the first 10 rows\"'' @ nl
       @ ''- \"What are the column names and data types?\"'' @ nl
       @ ''- \"Calculate summary statistics\"'' @ nl
       @ ''- \"Find missing values\"'' @ nl
       @ ''- \"Show correlations between numeric columns\"'' @ nl
       @ ''- \"Group by [column] and calculate averages\"'' @ nl
       @ ''- \"Show top 5 values by [column]\"'' @ nl"

text \<open>
  Lines 31-191, the body of the \<open>try\<close>. The result is \<open>Some s\<close> for \<open>return s\<close> and \<open>None\<close>
  where control reaches the end of the function without a \<open>return\<close>. The inner
  \<open>import pandas\<close> cannot fail: the module has imported pandas at its top already.
\<close>

definition analyze_body :: "py \<Rightarrow> 'df pandas \<Rightarrow> string \<Rightarrow> string \<Rightarrow> exn + string option" where
  "analyze_body P L data_content user_query =
     bind_exn (read_csv L data_content) (\<lambda>df.
       let query_lower = str_lower P user_query
       in if any_word_in query_lower [''first'', ''rows'', ''head'', ''show'']
          then (if str_contains query_lower ''first'' \<or> str_contains query_lower ''head''
                then Inr (Some (first_rows_branch P L df user_query))
                else Inr None)
          else if any_word_in query_lower [''columns'', ''column names'', ''data types'']
          then Inr (Some (column_info_branch L df))
          else if any_word_in query_lower
                    [''summary'', ''statistics'', ''describe'', ''mean'', ''median'', ''std'']
          then Inr (Some (summary_branch L df))
          else if any_word_in query_lower [''missing'', ''null'', ''na'']
          then Inr (Some (missing_values_branch L df))
          else if any_word_in query_lower [''unique'', ''distinct'', ''values'']
          then Inr (Some (unique_branch L df))
          else if any_word_in query_lower [''correlation'', ''correlate'']
          then Inr (Some (correlation_branch L df))
          else if any_word_in query_lower [''group'', ''groupby'', ''count'', ''average'', ''mean'']
          then bind_exn (group_branch P L df user_query query_lower) (\<lambda>r. Inr (Some r))
          else if any_word_in query_lower [''top'', ''highest'', ''maximum'', ''largest'']
          then bind_exn (top_branch P L df user_query query_lower) (\<lambda>r. Inr (Some r))
          else Inr (Some (data_overview L df)))"

text \<open>The function with its \<open>except Exception\<close>; \<open>openai_api_key\<close> is the third argument.\<close>

definition analyze_data_with_sql ::
    "py \<Rightarrow> 'df pandas \<Rightarrow> string \<Rightarrow> string \<Rightarrow> string option \<Rightarrow> exn + string option" where
  "analyze_data_with_sql P L data_content user_query openai_api_key =
     (case analyze_body P L data_content user_query of
        Inl e \<Rightarrow> Inr (Some (''Error analyzing data: '' @ str_exn e))
      | Inr r \<Rightarrow> Inr r)"

subsection \<open>A small frame library to run the model on\<close>

text \<open>
  The theorems below hold for every pandas. To evaluate the model on concrete text, this
  instance reads comma-separated lines into a header and rows of cells, counts the empty
  and \<open>NA\<close>-like cells as null, and treats every column as of dtype \<open>object\<close>.
\<close>

record frame =
  frame_columns :: "string list"
  frame_rows :: "string list list"

fun split_on :: "char \<Rightarrow> string \<Rightarrow> string \<Rightarrow> string list" where
  "split_on sep cur [] = [cur]"
| "split_on sep cur (c # cs) = (if c = sep then cur # split_on sep [] cs else split_on sep (cur @ [c]) cs)"

definition is_na :: "string \<Rightarrow> bool" where
  "is_na cell = (cell \<in> set ['''', ''NA'', ''N/A'', ''NaN'', ''missing''])"

definition column_cells :: "frame \<Rightarrow> string \<Rightarrow> string list" where
  "column_cells df col =
     concat (map (\<lambda>row. map snd (filter (\<lambda>(c, v). c = col) (zip (frame_columns df) row)))
                 (frame_rows df))"

definition simple_read_csv :: "string \<Rightarrow> exn + frame" where
  "simple_read_csv text =
     (case filter (\<lambda>l. l \<noteq> []) (split_on (CHR 0x0A) [] text) of
        [] \<Rightarrow> Inl (Exception ''No columns to parse from file'')
      | h # rs \<Rightarrow> Inr \<lparr> frame_columns = split_on (CHR '','') [] h,
                        frame_rows = map (split_on (CHR '','') []) rs \<rparr>)"

definition simple_pandas :: "frame pandas" where
  "simple_pandas =
     \<lparr> read_csv = simple_read_csv,
       n_rows = (\<lambda>df. length (frame_rows df)),
       n_cols = (\<lambda>df. length (frame_columns df)),
       columns = frame_columns,
       head_to_string = (\<lambda>df n. join nl (map (join '' '') (frame_columns df # take n (frame_rows df)))),
       dtype_str = (\<lambda>df col. ''object''),
       null_count = (\<lambda>df col. length (filter is_na (column_cells df col))),
       numeric_cols = (\<lambda>df. []),
       describe_to_string = (\<lambda>df. []),
       missing_info_to_string = (\<lambda>df. join nl (filter (\<lambda>col. filter is_na (column_cells df col) \<noteq> []) (frame_columns df))),
       nunique_to_string = (\<lambda>df. join nl (frame_columns df)),
       corr_to_string = (\<lambda>df. []),
       groupby_size_to_string = (\<lambda>df col. Inr col),
       groupby_mean_to_string = (\<lambda>df col. Inl (Exception ''agg function failed'')),
       groupby_agg_to_string = (\<lambda>df col. Inl (Exception ''agg function failed'')),
       dtype_in_number = (\<lambda>df col. Inr False),
       nlargest_to_string = (\<lambda>df n col. Inl (Exception ''Column has dtype object'')),
       repr_str_list = (\<lambda>xs. ''['' @ join '', '' (map (\<lambda>x. [CHR 0x27] @ x @ [CHR 0x27]) xs) @ '']''),
       dtypes_repr = (\<lambda>df. ''{}'') \<rparr>"

definition sample_csv :: string where
  "sample_csv = ''name,age,city'' @ nl @ ''John,25,NYC'' @ nl @ ''Jane,,LA''"

text \<open>A file without an empty cell.\<close>

definition complete_csv :: string where
  "complete_csv = ''name,age'' @ nl @ ''John,25'' @ nl @ ''Jane,30''"

section \<open>Python floats\<close>

text \<open>
  \<open>MathRequest\<close> declares \<open>a\<close> and \<open>b\<close> as \<open>float\<close>: IEEE 754 binary64. A finite value is
  kept as the rational it denotes (\<open>Finite 0\<close> is \<open>0.0\<close>, \<open>NegZero\<close> is \<open>-0.0\<close>). Arithmetic
  computes the exact rational result and rounds it to the nearest double, ties to even.
\<close>

datatype pyfloat = Finite rat | NegZero | PosInf | NegInf | NaN

definition pow2 :: "int \<Rightarrow> rat" where
  "pow2 e = (if 0 \<le> e then 2 ^ nat e else 1 / 2 ^ nat (- e))"

fun bit_length :: "nat \<Rightarrow> nat" where
  "bit_length n = (if n = 0 then 0 else Suc (bit_length (n div 2)))"

declare bit_length.simps [simp del]

text \<open>The exponent \<open>e\<close> with \<open>2^e \<le> q < 2^(e+1)\<close>, for \<open>q > 0\<close>.\<close>

definition floor_log2 :: "rat \<Rightarrow> int" where
  "floor_log2 q =
     (if 1 \<le> q then int (bit_length (nat \<lfloor>q\<rfloor>)) - 1
      else let l = int (bit_length (nat \<lfloor>1 / q\<rfloor>))
           in if pow2 (1 - l) \<le> q then 1 - l else - l)"

definition round_half_even :: "rat \<Rightarrow> int" where
  "round_half_even x =
     (let f = \<lfloor>x\<rfloor>; r = x - of_int f
      in if r < 1 / 2 then f else if 1 / 2 < r then f + 1 else if even f then f else f + 1)"

text \<open>
  The spacing of the doubles around \<open>q\<close>: 52 fraction bits below the leading bit, and the
  fixed spacing \<open>2^-1074\<close> of the subnormal range below \<open>2^-1022\<close>.
\<close>

definition ulp_of :: "rat \<Rightarrow> rat" where
  "ulp_of q = pow2 (max (floor_log2 \<bar>q\<bar>) (- 1022) - 52)"

definition round_binary64 :: "rat \<Rightarrow> pyfloat" where
  "round_binary64 q =
     (if q = 0 then Finite 0
      else let r = of_int (round_half_even (\<bar>q\<bar> / ulp_of q)) * ulp_of q
           in if pow2 1024 \<le> r then (if 0 < q then PosInf else NegInf)
              else if r = 0 then (if 0 < q then Finite 0 else NegZero)
              else Finite (if 0 < q then r else - r))"

text \<open>The rationals that are doubles.\<close>

definition is_binary64 :: "rat \<Rightarrow> bool" where
  "is_binary64 q =
     (q = 0 \<or> (\<bar>q\<bar> < pow2 1024 \<and> of_int \<lfloor>\<bar>q\<bar> / ulp_of q\<rfloor> = \<bar>q\<bar> / ulp_of q))"

text \<open>The number a float denotes, when it denotes one.\<close>

fun float_value :: "pyfloat \<Rightarrow> rat option" where
  "float_value (Finite q) = Some q"
| "float_value NegZero = Some 0"
| "float_value _ = None"

fun is_zero :: "pyfloat \<Rightarrow> bool" where
  "is_zero (Finite q) = (q = 0)"
| "is_zero NegZero = True"
| "is_zero _ = False"

fun is_inf :: "pyfloat \<Rightarrow> bool" where
  "is_inf PosInf = True"
| "is_inf NegInf = True"
| "is_inf _ = False"

fun sign_bit :: "pyfloat \<Rightarrow> bool" where
  "sign_bit (Finite q) = (q < 0)"
| "sign_bit NegZero = True"
| "sign_bit NegInf = True"
| "sign_bit _ = False"

definition signed_zero :: "bool \<Rightarrow> pyfloat" where
  "signed_zero neg = (if neg then NegZero else Finite 0)"

definition signed_inf :: "bool \<Rightarrow> pyfloat" where
  "signed_inf neg = (if neg then NegInf else PosInf)"

fun float_neg :: "pyfloat \<Rightarrow> pyfloat" where
  "float_neg (Finite q) = (if q = 0 then NegZero else Finite (- q))"
| "float_neg NegZero = Finite 0"
| "float_neg PosInf = NegInf"
| "float_neg NegInf = PosInf"
| "float_neg NaN = NaN"

text \<open>\<open>a + b\<close>.\<close>

fun float_add :: "pyfloat \<Rightarrow> pyfloat \<Rightarrow> pyfloat" where
  "float_add NaN _ = NaN"
| "float_add _ NaN = NaN"
| "float_add PosInf NegInf = NaN"
| "float_add NegInf PosInf = NaN"
| "float_add PosInf _ = PosInf"
| "float_add _ PosInf = PosInf"
| "float_add NegInf _ = NegInf"
| "float_add _ NegInf = NegInf"
| "float_add NegZero NegZero = NegZero"
| "float_add NegZero (Finite y) = Finite y"
| "float_add (Finite x) NegZero = Finite x"
| "float_add (Finite x) (Finite y) = round_binary64 (x + y)"

text \<open>\<open>a - b\<close>.\<close>

definition float_sub :: "pyfloat \<Rightarrow> pyfloat \<Rightarrow> pyfloat" where
  "float_sub a b = float_add a (float_neg b)"

text \<open>\<open>a * b\<close>.\<close>

definition float_mul :: "pyfloat \<Rightarrow> pyfloat \<Rightarrow> pyfloat" where
  "float_mul a b =
     (let neg = (sign_bit a \<noteq> sign_bit b)
      in if a = NaN \<or> b = NaN then NaN
         else if is_inf a \<or> is_inf b
         then (if is_zero a \<or> is_zero b then NaN else signed_inf neg)
         else if is_zero a \<or> is_zero b then signed_zero neg
         else (case (a, b) of
                 (Finite x, Finite y) \<Rightarrow> round_binary64 (x * y)
               | _ \<Rightarrow> NaN))"

text \<open>\<open>a / b\<close>: Python raises \<open>ZeroDivisionError\<close> on a zero divisor.\<close>

definition float_truediv :: "pyfloat \<Rightarrow> pyfloat \<Rightarrow> exn + pyfloat" where
  "float_truediv a b =
     (let neg = (sign_bit a \<noteq> sign_bit b)
      in if is_zero b then Inl (Exception ''float division by zero'')
         else if a = NaN \<or> b = NaN then Inr NaN
         else if is_inf a then (if is_inf b then Inr NaN else Inr (signed_inf neg))
         else if is_inf b \<or> is_zero a then Inr (signed_zero neg)
         else (case (a, b) of
                 (Finite x, Finite y) \<Rightarrow> Inr (round_binary64 (x / y))
               | _ \<Rightarrow> Inr NaN))"

text \<open>\<open>b == 0\<close> on a float: true of both zeros, false of \<open>nan\<close>.\<close>

definition float_eq_zero :: "pyfloat \<Rightarrow> bool" where
  "float_eq_zero b = is_zero b"

section \<open>api\_server.py: the math endpoints\<close>

text \<open>What a handler returns: the dict that FastAPI serialises.\<close>

datatype pyval =
    PyNone
  | PyStr string
  | PyFloat pyfloat
  | PyList "pyval list"
  | PyDict "(string \<times> pyval) list"

text \<open>
  \<open>except Exception as e: raise HTTPException(status_code=400, detail=str(e))\<close>, the
  handler of every \<open>try\<close> in this file.
\<close>

definition except_raise_400 :: "exn + 'a \<Rightarrow> exn + 'a" where
  "except_raise_400 body =
     (case body of Inl e \<Rightarrow> Inl (HTTPException 400 (str_exn e)) | Inr v \<Rightarrow> Inr v)"

definition add_numbers :: "pyfloat \<Rightarrow> pyfloat \<Rightarrow> exn + pyval" where
  "add_numbers a b =
     except_raise_400
       (let result = float_add a b
        in Inr (PyDict [(''result'', PyFloat result), (''operation'', PyStr ''addition''),
                        (''inputs'', PyList [PyFloat a, PyFloat b])]))"

definition multiply_numbers :: "pyfloat \<Rightarrow> pyfloat \<Rightarrow> exn + pyval" where
  "multiply_numbers a b =
     except_raise_400
       (let result = float_mul a b
        in Inr (PyDict [(''result'', PyFloat result), (''operation'', PyStr ''multiplication''),
                        (''inputs'', PyList [PyFloat a, PyFloat b])]))"

definition subtract_numbers :: "pyfloat \<Rightarrow> pyfloat \<Rightarrow> exn + pyval" where
  "subtract_numbers a b =
     except_raise_400
       (let result = float_sub a b
        in Inr (PyDict [(''result'', PyFloat result), (''operation'', PyStr ''subtraction''),
                        (''inputs'', PyList [PyFloat a, PyFloat b])]))"

definition divide_numbers :: "pyfloat \<Rightarrow> pyfloat \<Rightarrow> exn + pyval" where
  "divide_numbers a b =
     except_raise_400
       (if float_eq_zero b then Inl (HTTPException 400 ''Cannot divide by zero'')
        else bind_exn (float_truediv a b) (\<lambda>result.
               Inr (PyDict [(''result'', PyFloat result), (''operation'', PyStr ''division''),
                            (''inputs'', PyList [PyFloat a, PyFloat b])])))"

section \<open>Calls to external services\<close>

text \<open>
  A request to a service outside the process. A function that talks to a service takes
  the list of the calls made so far and returns it extended: the trace shows what was
  asked, in which order and how often. What a service answers may depend on the trace, so
  that a second attempt of a call may succeed where the first one failed.
\<close>

datatype call =
    YfTickerInfo string
  | DdgsText string int
  | RequestsGet string
  | AgentRun string
  | MakeDirs string
  | WriteFile string

type_synonym 'a io = "call list \<Rightarrow> (exn + 'a) \<times> call list"

definition io_return :: "'a \<Rightarrow> 'a io" where
  "io_return v = (\<lambda>tr. (Inr v, tr))"

definition io_raise :: "exn \<Rightarrow> 'a io" where
  "io_raise e = (\<lambda>tr. (Inl e, tr))"

text \<open>A computation without calls, which may raise.\<close>

definition io_pure :: "exn + 'a \<Rightarrow> 'a io" where
  "io_pure r = (\<lambda>tr. (r, tr))"

definition io_bind :: "'a io \<Rightarrow> ('a \<Rightarrow> 'b io) \<Rightarrow> 'b io" where
  "io_bind m f = (\<lambda>tr. case m tr of (Inl e, tr') \<Rightarrow> (Inl e, tr') | (Inr v, tr') \<Rightarrow> f v tr')"

text \<open>One call \<open>c\<close>, answered by \<open>answer\<close> from the trace before it.\<close>

definition io_call :: "call \<Rightarrow> (call list \<Rightarrow> exn + 'a) \<Rightarrow> 'a io" where
  "io_call c answer = (\<lambda>tr. (answer tr, tr @ [c]))"

text \<open>\<open>try: body except Exception as e: handler\<close>.\<close>

definition io_try :: "'a io \<Rightarrow> (exn \<Rightarrow> 'a io) \<Rightarrow> 'a io" where
  "io_try body handler =
     (\<lambda>tr. case body tr of (Inl e, tr') \<Rightarrow> handler e tr' | (Inr v, tr') \<Rightarrow> (Inr v, tr'))"

text \<open>\<open>except Exception as e: raise HTTPException(status_code=400, detail=str(e))\<close>.\<close>

definition io_except_raise_400 :: "'a io \<Rightarrow> 'a io" where
  "io_except_raise_400 body = io_try body (\<lambda>e. io_raise (HTTPException 400 (str_exn e)))"

text \<open>
  The readings of the clock during a request: \<open>datetime.now()\<close> printed by \<open>isoformat()\<close>
  and by the \<open>strftime\<close> formats \<open>%Y-%m\<close> and \<open>%Y-%m-%d %H:%M\<close>.
\<close>

record clock =
  now_isoformat :: string
  now_year_month :: string
  now_date_minute :: string





section \<open>finance\_tools.py\<close>

text \<open>
  yfinance: \<open>yf.Ticker(symbol).info\<close> is one request, answered by a dict or an exception.
  The values of the dict are of an abstract type \<open>'v\<close> with their truth value, their
  \<open>str\<close>, and their rendering by the format specifications \<open>,.2f\<close> and \<open>,.0f\<close>, which
  raise on a value that is not a number. \<open>format_0f_of_str\<close> is the \<open>ValueError\<close> that
  \<open>,.0f\<close> raises on a \<open>str\<close>.
\<close>

record 'v yfinance =
  ticker_info :: "call list \<Rightarrow> string \<Rightarrow> exn + (string \<rightharpoonup> 'v)"
  truthy :: "'v \<Rightarrow> bool"
  str_value :: "'v \<Rightarrow> string"
  format_2f :: "'v \<Rightarrow> exn + string"
  format_0f :: "'v \<Rightarrow> exn + string"
  format_0f_of_str :: exn

text \<open>\<open>{info.get(key, default)}\<close> inside an f-string, for a default that is a string.\<close>

definition info_get :: "'v yfinance \<Rightarrow> (string \<rightharpoonup> 'v) \<Rightarrow> string \<Rightarrow> string \<Rightarrow> string" where
  "info_get Y info key dflt = (case info key of Some v \<Rightarrow> str_value Y v | None \<Rightarrow> dflt)"

text \<open>\<open>{info.get(key, 'N/A'):,.0f}\<close>: the format specification raises on the default.\<close>

definition info_get_0f :: "'v yfinance \<Rightarrow> (string \<rightharpoonup> 'v) \<Rightarrow> string \<Rightarrow> exn + string" where
  "info_get_0f Y info key =
     (case info key of Some v \<Rightarrow> format_0f Y v | None \<Rightarrow> Inl (format_0f_of_str Y))"

text \<open>\<open>'regularMarketPrice' in info and info['regularMarketPrice']\<close>.\<close>

definition has_market_price :: "'v yfinance \<Rightarrow> (string \<rightharpoonup> 'v) \<Rightarrow> bool" where
  "has_market_price Y info =
     (case info ''regularMarketPrice'' of Some v \<Rightarrow> truthy Y v | None \<Rightarrow> False)"



text \<open>\<open>s.endswith(suffix)\<close> and \<open>s.replace(sub, '')\<close> for a non-empty \<open>sub\<close>.\<close>

definition endswith :: "string \<Rightarrow> string \<Rightarrow> bool" where
  "endswith s suf = suffix suf s"

function str_remove :: "string \<Rightarrow> string \<Rightarrow> string" where
  "str_remove sub [] = []"
| "str_remove sub (c # cs) =
     (if sub \<noteq> [] \<and> prefix sub (c # cs) then str_remove sub (drop (length sub) (c # cs))
      else c # str_remove sub cs)"
  by pat_completeness auto
termination
  by (relation "measure (\<lambda>(sub, s). length s)") (auto simp: neq_Nil_conv)

text \<open>
  \<open>symbol0\<close> is the argument; \<open>symbol\<close> is the variable after the assignment of line 166,
  which the request, the report and the error text all read.
\<close>

definition get_crypto_price :: "py \<Rightarrow> 'v yfinance \<Rightarrow> string \<Rightarrow> string io" where
  "get_crypto_price P Y symbol0 =
     (let symbol = (if \<not> endswith symbol0 ''-USD'' then str_upper P symbol0 @ ''-USD''
                    else symbol0)
      in io_try
           (io_bind (io_call (YfTickerInfo symbol) (\<lambda>tr. ticker_info Y tr symbol))
              (\<lambda>info.
                 if has_market_price Y info
                 then io_pure
                   (bind_exn (case info ''regularMarketPrice'' of
                                Some price \<Rightarrow> format_2f Y price
                              | None \<Rightarrow> Inl (Exception ''regularMarketPrice'')) (\<lambda>price.
                    bind_exn (info_get_0f Y info ''marketCap'') (\<lambda>market_cap.
                    bind_exn (info_get_0f Y info ''circulatingSupply'') (\<lambda>supply.
                      Inr (nl @ ''**Cryptocurrency Price: '' @ str_remove ''-USD'' symbol
                             @ ''**'' @ nl @ nl
                           @ ''- **Current Price**: $'' @ price @ '' USD'' @ nl
                           @ ''- **24h Change**: ''
                             @ info_get Y info ''regularMarketChangePercent'' ''N/A'' @ ''%'' @ nl
                           @ ''- **24h Volume**: '' @ info_get Y info ''volume'' ''N/A'' @ nl
                           @ ''- **Market Cap**: $'' @ market_cap @ '' USD'' @ nl
                           @ ''- **Circulating Supply**: '' @ supply @ nl)))))
                 else io_return (''Could not retrieve price for '' @ str_remove ''-USD'' symbol
                                   @ ''. Please check the symbol.'')))
           (\<lambda>e. io_return (''Error retrieving crypto price for '' @ symbol @ '': ''
                              @ str_exn e)))"

section \<open>news\_tools.py\<close>







section \<open>The web: requests and BeautifulSoup\<close>

text \<open>
  \<open>requests.get(url, ...)\<close> is one request, answered by a response or an exception;
  \<open>raise_for_status\<close> raises on an error status. \<open>parse_html\<close> is
  \<open>BeautifulSoup(response.content, 'html.parser')\<close>; \<open>remove_script_style\<close> is the loop that
  decomposes every \<open>script\<close> and \<open>style\<close> element. \<open>soup_find_title\<close> is \<open>soup.find('title')\<close>
  with \<open>get_text()\<close> applied to the tag found (a tag is always true); \<open>soup_headings\<close> and
  \<open>soup_links\<close> give \<open>get_text()\<close> of the tags that \<open>find_all(['h1', 'h2', 'h3'])\<close> and
  \<open>find_all('a', href=True)\<close> find, in document order.
\<close>

record ('resp, 'soup) web =
  requests_get :: "call list \<Rightarrow> string \<Rightarrow> exn + 'resp"
  raise_for_status :: "'resp \<Rightarrow> exn + unit"
  parse_html :: "'resp \<Rightarrow> exn + 'soup"
  remove_script_style :: "'soup \<Rightarrow> 'soup"
  soup_get_text :: "'soup \<Rightarrow> string"
  soup_find_title :: "'soup \<Rightarrow> string option"
  soup_headings :: "'soup \<Rightarrow> string list"
  soup_links :: "'soup \<Rightarrow> string list"

section \<open>music\_tools.py\<close>







section \<open>api\_server.py: the handlers that call the tools\<close>








text \<open>Lines 220-223: the text of the page, its lines and phrases stripped and rejoined.\<close>

fun split_two_spaces_from :: "string \<Rightarrow> string \<Rightarrow> string list" where
  "split_two_spaces_from cur [] = [cur]"
| "split_two_spaces_from cur [c] = [cur @ [c]]"
| "split_two_spaces_from cur (c # d # cs) =
     (if c = CHR 0x20 \<and> d = CHR 0x20 then cur # split_two_spaces_from [] cs
      else split_two_spaces_from (cur @ [c]) (d # cs))"

text \<open>\<open>line.split("  ")\<close>.\<close>

definition split_two_spaces :: "string \<Rightarrow> string list" where
  "split_two_spaces line = split_two_spaces_from [] line"

definition page_text :: "py \<Rightarrow> string \<Rightarrow> string" where
  "page_text P text =
     (let lines = map (str_strip P) (str_splitlines P text);
          chunks = concat (map (\<lambda>line. map (str_strip P) (split_two_spaces line)) lines)
      in join '' '' (filter (\<lambda>chunk. chunk \<noteq> []) chunks))"

definition scrape_website ::
    "py \<Rightarrow> ('resp, 'soup) web \<Rightarrow> clock \<Rightarrow> string \<Rightarrow> string \<Rightarrow> pyval io" where
  "scrape_website P W C url prompt =
     io_except_raise_400
       (io_bind (io_call (RequestsGet url) (\<lambda>tr. requests_get W tr url)) (\<lambda>response.
        io_bind (io_pure (raise_for_status W response)) (\<lambda>_.
        io_bind (io_pure (parse_html W response)) (\<lambda>soup0.
          let soup = remove_script_style W soup0;
              text = page_text P (soup_get_text W soup);
              prompt_lower = str_lower P prompt;
              result =
                (if str_contains prompt_lower ''title''
                 then (case soup_find_title W soup of
                         Some title_text \<Rightarrow> PyStr title_text
                       | None \<Rightarrow> PyStr ''No title found'')
                 else if str_contains prompt_lower ''headings''
                 then PyList (map (\<lambda>h. PyStr (str_strip P h)) (take 5 (soup_headings W soup)))
                 else if str_contains prompt_lower ''links''
                 then PyList (map (\<lambda>link. PyStr (str_strip P link)) (take 10 (soup_links W soup)))
                 else PyStr (if 500 < str_len P text then str_slice_to P 500 text @ ''...''
                             else text))
          in io_return (PyDict [(''url'', PyStr url), (''prompt'', PyStr prompt),
                                (''result'', result),
                                (''timestamp'', PyStr (now_isoformat C))])))))"

text \<open>The handler has no \<open>try\<close> and calls nothing but the clock.\<close>

definition health_check :: "clock \<Rightarrow> pyval io" where
  "health_check C =
     io_return
       (PyDict [(''status'', PyStr ''healthy''),
                (''timestamp'', PyStr (now_isoformat C)),
                (''version'', PyStr ''1.0.0''),
                (''services'', PyList [PyStr ''math'', PyStr ''finance'', PyStr ''news'',
                                       PyStr ''music'', PyStr ''data_analysis'',
                                       PyStr ''web_scraping''])])"

text \<open>\<open>d[key]\<close> on a returned dict.\<close>

fun dict_get :: "pyval \<Rightarrow> string \<Rightarrow> pyval option" where
  "dict_get (PyDict kvs) key = map_of kvs key"
| "dict_get _ key = None"

subsection \<open>Small services to run the model on\<close>

text \<open>
  The theorems below hold for all services. To evaluate the model, \<open>flaky_yfinance\<close> is
  a quote service that times out on the first request made to it and answers from a table
  from then on; its values are kept as the text they print as.
\<close>

definition yf_requests :: "call list \<Rightarrow> call list" where
  "yf_requests tr = filter (\<lambda>c. case c of YfTickerInfo _ \<Rightarrow> True | _ \<Rightarrow> False) tr"

definition flaky_yfinance :: "(string \<rightharpoonup> (string \<rightharpoonup> string)) \<Rightarrow> string yfinance" where
  "flaky_yfinance quotes =
     \<lparr> ticker_info = (\<lambda>tr symbol.
          if yf_requests tr = [] then Inl (Exception ''Read timed out.'')
          else (case quotes symbol of
                  Some info \<Rightarrow> Inr info
                | None \<Rightarrow> Inr Map.empty)),
       truthy = (\<lambda>v. v \<noteq> [] \<and> v \<noteq> ''0''),
       str_value = (\<lambda>v. v),
       format_2f = Inr,
       format_0f = Inr,
       format_0f_of_str = Exception ''Unknown format code'' \<rparr>"


text \<open>
  A web of pages given by a table from URLs to a status and a page; a page is kept as
  what the handler reads from it.
\<close>

record page =
  page_title :: "string option"
  page_text_content :: string
  page_headings :: "string list"
  page_links :: "string list"

definition table_web :: "(string \<rightharpoonup> nat \<times> page) \<Rightarrow> (nat \<times> page, page) web" where
  "table_web site =
     \<lparr> requests_get = (\<lambda>tr url.
          case site url of
            Some response \<Rightarrow> Inr response
          | None \<Rightarrow> Inl (Exception ''Failed to resolve host'')),
       raise_for_status = (\<lambda>response.
          if 400 \<le> fst response then Inl (Exception (str_nat (fst response) @ '' Error''))
          else Inr ()),
       parse_html = (\<lambda>response. Inr (snd response)),
       remove_script_style = (\<lambda>soup. soup),
       soup_get_text = page_text_content,
       soup_find_title = page_title,
       soup_headings = page_headings,
       soup_links = page_links \<rparr>"

definition example_site :: "string \<rightharpoonup> nat \<times> page" where
  "example_site =
     [''https://example.com'' \<mapsto>
        (200, \<lparr> page_title = Some ''Example Domain'',
                page_text_content = ''Example Domain'',
                page_headings = [''Example Domain''],
                page_links = [''More information...''] \<rparr>),
      ''https://example.com/bare'' \<mapsto>
        (200, \<lparr> page_title = None,
                page_text_content = ''plain'',
                page_headings = [],
                page_links = [] \<rparr>),
      ''https://example.com/missing'' \<mapsto>
        (404, \<lparr> page_title = Some ''Not Found'',
                page_text_content = ''Not Found'',
                page_headings = [],
                page_links = [] \<rparr>)]"


definition noon :: clock where
  "noon = \<lparr> now_isoformat = ''2025-01-01T12:00:00'',
            now_year_month = ''2025-01'',
            now_date_minute = ''2025-01-01 12:00'' \<rparr>"



section \<open>Properties of the CSV analysis dispatch\<close>

lemma sample_csv_reads:
  "read_csv simple_pandas sample_csv =
     Inr \<lparr> frame_columns = [''name'', ''age'', ''city''],
           frame_rows = [[''John'', ''25'', ''NYC''], [''Jane'', '''', ''LA'']] \<rparr>"
  by (simp add: simple_pandas_def simple_read_csv_def sample_csv_def nl_def)

lemma complete_csv_reads:
  "read_csv simple_pandas complete_csv =
     Inr \<lparr> frame_columns = [''name'', ''age''],
           frame_rows = [[''John'', ''25''], [''Jane'', ''30'']] \<rparr>"
  by (simp add: simple_pandas_def simple_read_csv_def complete_csv_def nl_def)

lemma simple_read_sample_csv:
  "simple_read_csv sample_csv =
     Inr \<lparr> frame_columns = [''name'', ''age'', ''city''],
           frame_rows = [[''John'', ''25'', ''NYC''], [''Jane'', '''', ''LA'']] \<rparr>"
  by (simp add: simple_read_csv_def sample_csv_def nl_def)

lemma simple_read_complete_csv:
  "simple_read_csv complete_csv =
     Inr \<lparr> frame_columns = [''name'', ''age''],
           frame_rows = [[''John'', ''25''], [''Jane'', ''30'']] \<rparr>"
  by (simp add: simple_read_csv_def complete_csv_def nl_def)

lemma ascii_lower_find_missing:
  "str_lower ascii_py ''Find missing values'' = ''find missing values''"
  by (simp add: ascii_py_def lower_char_def)

lemma ascii_lower_which_columns:
  "str_lower ascii_py ''Which columns have missing values?''
     = ''which columns have missing values?''"
  by (simp add: ascii_py_def lower_char_def)

lemma ascii_lower_hello: "str_lower ascii_py ''Hello there'' = ''hello there''"
  by (simp add: ascii_py_def lower_char_def)

lemmas simple_pandas_eval = simple_pandas_def simple_read_sample_csv simple_read_complete_csv
  column_cells_def is_na_def str_nat.simps
  digit_char_def data_shape_line_def

lemma ascii_lower_show_data: "str_lower ascii_py ''Show me the data'' = ''show me the data''"
  by (simp add: ascii_py_def lower_char_def)

text \<open>
  C1, as stated: every query whose text contains \<open>missing\<close> is routed to the missing-value
  branch, whatever else it contains. This fails: the keyword tests form one
  \<open>if\<close>/\<open>elif\<close> chain and three of them come before the test for \<open>missing\<close>. On the
  sample file the query \<open>Which columns have missing values?\<close> contains \<open>columns\<close> and
  gets the column information report, printed in full below: it is not a text that begins
  with the heading of the missing-values report, and it is not the message that nothing
  is missing.
\<close>

theorem missing_query_can_route_to_column_info:
  "str_contains ''Which columns have missing values?'' ''missing''
   \<and> analyze_data_with_sql ascii_py simple_pandas sample_csv
        ''Which columns have missing values?'' None
       = Inr (Some (emoji_clipboard @ '' Column Information:'' @ nl @ nl
                    @ ''**Total Columns**: 3'' @ nl
                    @ ''**Data Shape**: 2 rows '' @ times_sign @ '' 3 columns'' @ nl @ nl
                    @ ''**Column Details**:'' @ nl
                    @ ''- **name**: object (0 null values)'' @ nl
                    @ ''- **age**: object (1 null values)'' @ nl
                    @ ''- **city**: object (0 null values)''))
   \<and> (\<forall>report. analyze_data_with_sql ascii_py simple_pandas sample_csv
                   ''Which columns have missing values?'' None
                 \<noteq> Inr (Some (emoji_magnifier @ '' Missing Values Analysis:'' @ report)))
   \<and> analyze_data_with_sql ascii_py simple_pandas sample_csv
        ''Which columns have missing values?'' None
       \<noteq> Inr (Some (emoji_check @ '' No missing values found in the dataset!''))"
  by (simp add: sample_csv_reads analyze_data_with_sql_def analyze_body_def bind_exn_def
        ascii_lower_which_columns any_word_in_def column_info_branch_def simple_pandas_eval
        emoji_clipboard_def emoji_magnifier_def emoji_check_def)

text \<open>
  C1, amended: for CSV text that pandas parses, a query whose lower-cased text contains
  \<open>missing\<close> and none of the keywords tested before it (\<open>first\<close>, \<open>rows\<close>, \<open>head\<close>,
  \<open>show\<close>; \<open>columns\<close>, \<open>column names\<close>, \<open>data types\<close>; \<open>summary\<close>, \<open>statistics\<close>,
  \<open>describe\<close>, \<open>mean\<close>, \<open>median\<close>, \<open>std\<close>) is answered by the missing-value branch. When
  some column has a null, the answer is the heading \<open>Missing Values Analysis:\<close>, the table
  of the columns with nulls and the total of the null counts of all columns; when no
  column has one, it is the message \<open>No missing values found in the dataset!\<close>.
\<close>

theorem missing_routes_after_earlier_keywords:
  assumes "read_csv L data_content = Inr df"
    and "str_contains (str_lower P user_query) ''missing''"
    and "\<not> any_word_in (str_lower P user_query) [''first'', ''rows'', ''head'', ''show'']"
    and "\<not> any_word_in (str_lower P user_query) [''columns'', ''column names'', ''data types'']"
    and "\<not> any_word_in (str_lower P user_query)
              [''summary'', ''statistics'', ''describe'', ''mean'', ''median'', ''std'']"
  shows "analyze_data_with_sql P L data_content user_query openai_api_key
           = Inr (Some
               (if list_ex (\<lambda>col. 0 < null_count L df col) (columns L df)
                then emoji_magnifier @ '' Missing Values Analysis:'' @ nl @ nl
                       @ missing_info_to_string L df @ nl @ nl
                       @ ''**Total Missing Values**: ''
                       @ str_nat (sum_list (map (null_count L df) (columns L df)))
                else emoji_check @ '' No missing values found in the dataset!''))"
proof -
  have "(filter (\<lambda>col. 0 < null_count L df col) (columns L df) \<noteq> [])
          = list_ex (\<lambda>col. 0 < null_count L df col) (columns L df)"
    by (simp add: filter_empty_conv list_ex_iff)
  then show ?thesis
    using assms
    by (simp add: analyze_data_with_sql_def analyze_body_def bind_exn_def any_word_in_def
          missing_values_branch_def Let_def)
qed

theorem missing_routes_after_earlier_keywords_witness:
  "analyze_data_with_sql ascii_py simple_pandas sample_csv ''Find missing values'' None
     = Inr (Some (emoji_magnifier @ '' Missing Values Analysis:'' @ nl @ nl
                  @ ''age'' @ nl @ nl
                  @ ''**Total Missing Values**: 1''))
   \<and> analyze_data_with_sql ascii_py simple_pandas complete_csv
        ''Find missing values'' None
     = Inr (Some (emoji_check @ '' No missing values found in the dataset!''))
   \<and> (\<exists>df. read_csv simple_pandas sample_csv = Inr df)
   \<and> (\<exists>df. read_csv simple_pandas complete_csv = Inr df)
   \<and> str_contains (str_lower ascii_py ''Find missing values'') ''missing''
   \<and> \<not> any_word_in (str_lower ascii_py ''Find missing values'')
              [''first'', ''rows'', ''head'', ''show'']
   \<and> \<not> any_word_in (str_lower ascii_py ''Find missing values'')
              [''columns'', ''column names'', ''data types'']
   \<and> \<not> any_word_in (str_lower ascii_py ''Find missing values'')
              [''summary'', ''statistics'', ''describe'', ''mean'', ''median'', ''std'']"
  using missing_routes_after_earlier_keywords
          [OF sample_csv_reads, of ascii_py "''Find missing values''" None]
        missing_routes_after_earlier_keywords
          [OF complete_csv_reads, of ascii_py "''Find missing values''" None]
  by (simp add: sample_csv_reads complete_csv_reads ascii_lower_find_missing any_word_in_def
        simple_pandas_eval)

text \<open>
  C6: for CSV text that pandas parses, a query whose lower-cased text contains none of the
  keywords of the eight tests gets the generic data overview: the heading
  \<open>Data Overview:\<close>, the shape of the frame (rows and columns), the list of the columns,
  the data types, the total of the null counts, the first five rows, and the list of
  suggested questions. Column names play no part on this path, so the theorem needs no
  hypothesis about them.
\<close>

theorem no_keyword_gives_data_overview:
  assumes "read_csv L data_content = Inr df"
    and "\<not> any_word_in (str_lower P user_query)
              [''first'', ''rows'', ''head'', ''show'',
               ''columns'', ''column names'', ''data types'',
               ''summary'', ''statistics'', ''describe'', ''mean'', ''median'', ''std'',
               ''missing'', ''null'', ''na'',
               ''unique'', ''distinct'', ''values'',
               ''correlation'', ''correlate'',
               ''group'', ''groupby'', ''count'', ''average'',
               ''top'', ''highest'', ''maximum'', ''largest'']"
  shows "analyze_data_with_sql P L data_content user_query openai_api_key
           = Inr (Some
               (emoji_bar_chart @ '' Data Overview:'' @ nl @ nl
                @ ''**Dataset Shape**: '' @ str_nat (n_rows L df) @ '' rows '' @ times_sign
                  @ '' '' @ str_nat (n_cols L df) @ '' columns'' @ nl
                @ ''**Columns**: '' @ repr_str_list L (columns L df) @ nl
                @ ''**Data Types**: '' @ dtypes_repr L df @ nl
                @ ''**Missing Values**: ''
                  @ str_nat (sum_list (map (null_count L df) (columns L df))) @ '' total''
                  @ nl @ nl
                @ ''**Sample Data**:'' @ nl
                @ head_to_string L df 5 @ nl @ nl
                @ emoji_bulb @ '' **Try asking for:**'' @ nl
                @ ''- \"Show me the first 10 rows\"'' @ nl
                @ ''- \"What are the column names and data types?\"'' @ nl
                @ ''- \"Calculate summary statistics\"'' @ nl
                @ ''- \"Find missing values\"'' @ nl
                @ ''- \"Show correlations between numeric columns\"'' @ nl
                @ ''- \"Group by [column] and calculate averages\"'' @ nl
                @ ''- \"Show top 5 values by [column]\"'' @ nl))"
  using assms
  by (simp add: analyze_data_with_sql_def analyze_body_def bind_exn_def any_word_in_def
        data_overview_def)

theorem no_keyword_gives_data_overview_witness:
  "analyze_data_with_sql ascii_py simple_pandas sample_csv ''Hello there'' None
     = Inr (Some
         (emoji_bar_chart @ '' Data Overview:'' @ nl @ nl
          @ ''**Dataset Shape**: 2 rows '' @ times_sign @ '' 3 columns'' @ nl
          @ ''**Columns**: ['' @ [CHR 0x27] @ ''name'' @ [CHR 0x27] @ '', ''
              @ [CHR 0x27] @ ''age'' @ [CHR 0x27] @ '', ''
              @ [CHR 0x27] @ ''city'' @ [CHR 0x27] @ '']'' @ nl
          @ ''**Data Types**: {}'' @ nl
          @ ''**Missing Values**: 1 total'' @ nl @ nl
          @ ''**Sample Data**:'' @ nl
          @ ''name age city'' @ nl @ ''John 25 NYC'' @ nl @ ''Jane  LA'' @ nl @ nl
          @ emoji_bulb @ '' **Try asking for:**'' @ nl
          @ ''- \"Show me the first 10 rows\"'' @ nl
          @ ''- \"What are the column names and data types?\"'' @ nl
          @ ''- \"Calculate summary statistics\"'' @ nl
          @ ''- \"Find missing values\"'' @ nl
          @ ''- \"Show correlations between numeric columns\"'' @ nl
          @ ''- \"Group by [column] and calculate averages\"'' @ nl
          @ ''- \"Show top 5 values by [column]\"'' @ nl))
   \<and> (\<exists>df. read_csv simple_pandas sample_csv = Inr df)
   \<and> \<not> any_word_in (str_lower ascii_py ''Hello there'')
              [''first'', ''rows'', ''head'', ''show'',
               ''columns'', ''column names'', ''data types'',
               ''summary'', ''statistics'', ''describe'', ''mean'', ''median'', ''std'',
               ''missing'', ''null'', ''na'',
               ''unique'', ''distinct'', ''values'',
               ''correlation'', ''correlate'',
               ''group'', ''groupby'', ''count'', ''average'',
               ''top'', ''highest'', ''maximum'', ''largest'']"
  using no_keyword_gives_data_overview
          [OF sample_csv_reads, of ascii_py "''Hello there''" None]
  by (simp add: sample_csv_reads ascii_lower_hello any_word_in_def simple_pandas_eval)

text \<open>
  C8: for CSV text that pandas parses, a query whose lower-cased text contains one of
  \<open>first\<close>, \<open>rows\<close>, \<open>head\<close>, \<open>show\<close> but neither \<open>first\<close> nor \<open>head\<close> enters the first
  branch, finds no \<open>return\<close> there and skips every \<open>elif\<close>: the function returns \<open>None\<close>,
  neither a report nor the overview.
\<close>

theorem show_without_first_or_head_returns_None:
  assumes "read_csv L data_content = Inr df"
    and "any_word_in (str_lower P user_query) [''first'', ''rows'', ''head'', ''show'']"
    and "\<not> str_contains (str_lower P user_query) ''first''"
    and "\<not> str_contains (str_lower P user_query) ''head''"
  shows "analyze_data_with_sql P L data_content user_query openai_api_key = Inr None"
  using assms by (simp add: analyze_data_with_sql_def analyze_body_def bind_exn_def)

theorem show_without_first_or_head_returns_None_witness:
  "(\<exists>df. read_csv simple_pandas sample_csv = Inr df)
   \<and> any_word_in (str_lower ascii_py ''Show me the data'')
         [''first'', ''rows'', ''head'', ''show'']
   \<and> \<not> str_contains (str_lower ascii_py ''Show me the data'') ''first''
   \<and> \<not> str_contains (str_lower ascii_py ''Show me the data'') ''head''
   \<and> analyze_data_with_sql ascii_py simple_pandas sample_csv ''Show me the data'' None
         = Inr None"
  using show_without_first_or_head_returns_None
          [OF sample_csv_reads, of ascii_py "''Show me the data''" None]
  by (simp add: sample_csv_reads ascii_lower_show_data any_word_in_def)

text \<open>
  C9: the result of \<open>analyze_data_with_sql\<close> does not depend on \<open>openai_api_key\<close>: on the
  same data and query, any two keys (\<open>None\<close> included) give the same output.
\<close>

theorem result_independent_of_openai_api_key:
  "analyze_data_with_sql P L data_content user_query key1
     = analyze_data_with_sql P L data_content user_query key2"
  by (simp add: analyze_data_with_sql_def)

section \<open>Properties of the math endpoints\<close>

lemma pow2_powi: "pow2 e = 2 powi e"
  unfolding pow2_def power_int_def by (auto simp: inverse_eq_divide power_one_over)

lemma pow2_pos: "0 < pow2 e"
  by (simp add: pow2_powi)

lemma pow2_add: "pow2 (a + b) = pow2 a * pow2 b"
  by (simp add: pow2_powi power_int_add)

lemma pow2_less: "a < b \<Longrightarrow> pow2 a < pow2 b"
  by (simp add: pow2_powi power_int_strict_increasing)

lemma pow2_le: "a \<le> b \<Longrightarrow> pow2 a \<le> pow2 b"
  by (simp add: pow2_powi power_int_increasing)

lemma pow2_less_iff: "pow2 a < pow2 b \<longleftrightarrow> a < b"
  using pow2_less [of a b] pow2_le [of b a] by (auto simp: not_less [symmetric])

lemma pow2_nat: "pow2 (int n) = 2 ^ n"
  by (simp add: pow2_def)

lemma pow2_Suc: "pow2 (e + 1) = 2 * pow2 e"
  using pow2_add [of e 1] by (simp add: pow2_def)

lemma bit_length_bounds:
  "0 < n \<Longrightarrow> 2 ^ (bit_length n - 1) \<le> n \<and> n < 2 ^ bit_length n"
proof (induction n rule: bit_length.induct)
  case (1 n)
  show ?case
  proof (cases "n div 2 = 0")
    case True
    with 1 have "n = 1" by (simp add: div_eq_0_iff) 
    then show ?thesis by (simp add: bit_length.simps)
  next
    case False
    then have pos: "0 < n div 2" by simp
    from 1 have n0: "n \<noteq> 0" by simp
    from 1(1) [OF n0 pos]
    have ih: "2 ^ (bit_length (n div 2) - 1) \<le> n div 2" "n div 2 < 2 ^ bit_length (n div 2)"
      by simp_all
    have bl: "bit_length n = Suc (bit_length (n div 2))"
      using n0 by (simp add: bit_length.simps [of n])
    have blpos: "0 < bit_length (n div 2)"
      using pos by (simp add: bit_length.simps [of "n div 2"])
    then obtain k where k: "bit_length (n div 2) = Suc k" by (cases "bit_length (n div 2)") auto
    from ih k have "2 ^ k \<le> n div 2" "n div 2 < 2 ^ Suc k" by simp_all
    then have "2 ^ Suc k \<le> n" "n < 2 ^ Suc (Suc k)" by simp_all
    then show ?thesis by (simp add: bl k)
  qed
qed

lemma pow2_neg_nat: "pow2 (- int k) = 1 / 2 ^ k"
  by (simp add: pow2_powi power_int_minus inverse_eq_divide)

lemma bit_length_pos: "0 < n \<Longrightarrow> 0 < bit_length n"
  by (simp add: bit_length.simps [of n])

lemma floor_log2_bounds:
  assumes "0 < q"
  shows "pow2 (floor_log2 q) \<le> q \<and> q < pow2 (floor_log2 q + 1)"
proof (cases "1 \<le> q")
  case True
  define n where "n = nat \<lfloor>q\<rfloor>"
  define b where "b = bit_length n"
  have fl: "1 \<le> \<lfloor>q\<rfloor>" using True by linarith
  then have npos: "0 < n" by (simp add: n_def)
  have nq: "of_nat n \<le> q" "q < of_nat n + 1"
    using fl by (simp_all add: n_def) linarith+
  obtain k where k: "b = Suc k"
    using bit_length_pos [OF npos] by (cases b) (auto simp: b_def)
  have bb: "2 ^ k \<le> n" "n < 2 ^ Suc k"
    using bit_length_bounds [OF npos] by (simp_all add: b_def [symmetric] k)
  have e: "floor_log2 q = int k"
    using True by (simp add: floor_log2_def n_def [symmetric] b_def [symmetric] k)
  have a: "(2 :: rat) ^ k \<le> of_nat n"
    using bb(1) by (metis of_nat_le_iff of_nat_numeral of_nat_power)
  have c: "(of_nat n :: rat) + 1 \<le> 2 ^ Suc k"
  proof -
    have "n + 1 \<le> 2 ^ Suc k" using bb(2) by simp
    then have "(of_nat (n + 1) :: rat) \<le> of_nat (2 ^ Suc k)" by (simp only: of_nat_le_iff)
    then show ?thesis by simp
  qed
  have d: "pow2 (int k + 1) = 2 ^ Suc k"
    using pow2_nat [of "Suc k"] by (simp add: add.commute)
  have g1: "pow2 (int k) \<le> q" unfolding pow2_nat using a nq(1) by linarith
  have g2: "q < pow2 (int k + 1)" unfolding d using c nq(2) by linarith
  show ?thesis
    using g1 g2 by (simp only: e)
next
  case False
  define p where "p = 1 / q"
  define n where "n = nat \<lfloor>p\<rfloor>"
  define l where "l = bit_length n"
  have p1: "1 < p" using False assms by (simp add: p_def)
  then have fl: "1 \<le> \<lfloor>p\<rfloor>" by linarith
  then have npos: "0 < n" by (simp add: n_def)
  have np: "of_nat n \<le> p" "p < of_nat n + 1"
    using fl by (simp_all add: n_def) linarith+
  obtain k where k: "l = Suc k"
    using bit_length_pos [OF npos] by (cases l) (auto simp: l_def)
  have bb: "2 ^ k \<le> n" "n < 2 ^ Suc k"
    using bit_length_bounds [OF npos] by (simp_all add: l_def [symmetric] k)
  have lo: "(2 :: rat) ^ k \<le> p"
  proof -
    have "(2 :: rat) ^ k \<le> of_nat n"
      using bb(1) by (metis of_nat_le_iff of_nat_numeral of_nat_power)
    then show ?thesis using np(1) by linarith
  qed
  have hi: "p < 2 ^ Suc k"
  proof -
    have "n + 1 \<le> 2 ^ Suc k" using bb(2) by simp
    then have "(of_nat (n + 1) :: rat) \<le> of_nat (2 ^ Suc k)" by (simp only: of_nat_le_iff)
    then have "(of_nat n :: rat) + 1 \<le> 2 ^ Suc k" by simp
    then show ?thesis using np(2) by linarith
  qed
  have q_le: "q \<le> pow2 (- int k)"
  proof -
    have "1 / p \<le> 1 / 2 ^ k"
      using lo p1 by (intro divide_left_mono) (simp_all add: zero_less_mult_iff)
    then show ?thesis using assms by (simp add: p_def pow2_neg_nat)
  qed
  have q_gt: "pow2 (- int k - 1) < q"
  proof -
    have "0 < p" using p1 by simp
    then have "1 / 2 ^ Suc k < 1 / p"
      using hi by (intro divide_strict_left_mono) simp_all
    then have "1 / 2 ^ Suc k < q" using assms by (simp add: p_def)
    moreover have "- int k - 1 = - int (Suc k)" by simp
    ultimately show ?thesis by (simp only: pow2_neg_nat)
  qed
  have "floor_log2 q = (if pow2 (1 - int l) \<le> q then 1 - int l else - int l)"
    using False by (simp add: floor_log2_def p_def [symmetric] n_def [symmetric]
        l_def [symmetric] Let_def)
  moreover have "1 - int l = - int k" "- int l = - int k - 1" by (simp_all add: k)
  ultimately have e: "floor_log2 q = (if pow2 (- int k) \<le> q then - int k else - int k - 1)"
    by (simp only:)
  show ?thesis
  proof (cases "pow2 (- int k) \<le> q")
    case True
    then have fe: "floor_log2 q = - int k" by (simp add: e)
    have "q = pow2 (- int k)" using True q_le by simp
    moreover have "pow2 (- int k) < pow2 (- int k + 1)" by (rule pow2_less) simp
    ultimately have "q < pow2 (- int k + 1)" by simp
    then show ?thesis using True unfolding fe by simp
  next
    case no: False
    have fe: "floor_log2 q = - int k - 1" using no by (simp add: e)
    have "- int k - 1 + 1 = - int k" by simp
    then show ?thesis using no q_gt unfolding fe by simp
  qed
qed

lemma floor_log2_unique:
  assumes "pow2 a \<le> q" "q < pow2 (a + 1)"
  shows "floor_log2 q = a"
proof -
  have "0 < q" using assms(1) pow2_pos [of a] by linarith
  from floor_log2_bounds [OF this]
  have b: "pow2 (floor_log2 q) \<le> q" "q < pow2 (floor_log2 q + 1)" by simp_all
  have "pow2 (floor_log2 q) < pow2 (a + 1)" using b(1) assms(2) by linarith
  then have "floor_log2 q < a + 1" by (simp add: pow2_less_iff)
  moreover have "pow2 a < pow2 (floor_log2 q + 1)" using b(2) assms(1) by linarith
  then have "a < floor_log2 q + 1" by (simp add: pow2_less_iff)
  ultimately show ?thesis by simp
qed

lemma round_half_even_cases:
  fixes x :: rat
  defines "f \<equiv> \<lfloor>x\<rfloor>"
  shows "(x - of_int f < 1 / 2 \<and> round_half_even x = f)
         \<or> (1 / 2 < x - of_int f \<and> round_half_even x = f + 1)
         \<or> (x - of_int f = 1 / 2 \<and> even (round_half_even x)
             \<and> (round_half_even x = f \<or> round_half_even x = f + 1))"
  by (auto simp: round_half_even_def Let_def f_def)

lemma round_half_even_half: "\<bar>of_int (round_half_even x) - x\<bar> \<le> 1 / 2"
proof -
  define f where "f = \<lfloor>x\<rfloor>"
  define n where "n = round_half_even x"
  have fl: "of_int f \<le> x" "x < of_int f + 1" unfolding f_def by linarith+
  consider (a) "x - of_int f < 1 / 2" "n = f"
    | (b) "1 / 2 < x - of_int f" "n = f + 1"
    | (c) "x - of_int f = 1 / 2" "n = f \<or> n = f + 1"
    using round_half_even_cases [of x] unfolding f_def n_def by blast
  then have "\<bar>of_int n - x\<bar> \<le> 1 / 2"
  proof cases
    case a
    then have "(of_int n :: rat) = of_int f" by simp
    then show ?thesis using fl a(1) by linarith
  next
    case b
    then have "(of_int n :: rat) = of_int f + 1" by simp
    then show ?thesis using fl b(1) by linarith
  next
    case c
    then have "(of_int n :: rat) = of_int f \<or> (of_int n :: rat) = of_int f + 1" by auto
    then show ?thesis using fl c(1) by linarith
  qed
  then show ?thesis by (simp only: n_def)
qed

lemma round_half_even_nearest:
  "\<bar>of_int (round_half_even x) - x\<bar> \<le> \<bar>of_int m - x\<bar>"
proof (rule ccontr)
  assume "\<not> ?thesis"
  then have lt: "\<bar>of_int m - x\<bar> < \<bar>of_int (round_half_even x) - x\<bar>" by simp
  have "\<bar>(of_int m :: rat) - of_int (round_half_even x)\<bar> < 1"
    using lt round_half_even_half [of x] by linarith
  then have "\<bar>(of_int (m - round_half_even x) :: rat)\<bar> < 1" by simp
  then have "\<bar>m - round_half_even x\<bar> < 1"
    by (metis of_int_abs of_int_less_1_iff)
  then have "m = round_half_even x" by simp
  with lt show False by simp
qed

lemma round_half_even_tie:
  assumes "m \<noteq> round_half_even x"
    and "\<bar>of_int m - x\<bar> = \<bar>of_int (round_half_even x) - x\<bar>"
  shows "even (round_half_even x)"
proof -
  define f where "f = \<lfloor>x\<rfloor>"
  define n where "n = round_half_even x"
  have fl: "of_int f \<le> x" "x < of_int f + 1" unfolding f_def by linarith+
  have "1 \<le> \<bar>m - n\<bar>" using assms(1) by (simp add: n_def)
  then have "(1 :: rat) \<le> of_int \<bar>m - n\<bar>"
    by (metis of_int_1_le_iff)
  then have "(1 :: rat) \<le> \<bar>of_int m - of_int n\<bar>" by simp
  then have half: "1 / 2 \<le> \<bar>of_int n - x\<bar>"
    using assms(2) unfolding n_def [symmetric] by linarith
  consider (a) "x - of_int f < 1 / 2" "n = f"
    | (b) "1 / 2 < x - of_int f" "n = f + 1"
    | (c) "even n"
    using round_half_even_cases [of x] unfolding f_def n_def by blast
  then have "even n"
  proof cases
    case a
    then have "(of_int n :: rat) = of_int f" by simp
    then have False using fl a(1) half by linarith
    then show ?thesis ..
  next
    case b
    then have "(of_int n :: rat) = of_int f + 1" by simp
    then have False using fl b(1) half by linarith
    then show ?thesis ..
  next
    case c
    then show ?thesis .
  qed
  then show ?thesis by (simp only: n_def)
qed

lemma ulp_of_pos: "0 < ulp_of q"
  by (simp add: ulp_of_def pow2_pos)

lemma ulp_of_minus: "ulp_of (- q) = ulp_of q"
  by (simp add: ulp_of_def)

lemma is_binary64_minus: "is_binary64 (- q) = is_binary64 q"
  by (simp add: is_binary64_def ulp_of_minus)

text \<open>The binade of a positive \<open>q\<close>: its lower end, its upper end, and the spacing in it.\<close>

lemma binade_bounds:
  assumes "0 < q"
  shows "(if - 1022 \<le> floor_log2 q then pow2 (floor_log2 q) else 0) \<le> q"
    and "q < pow2 (max (floor_log2 q) (- 1022) + 1)"
proof -
  have b: "pow2 (floor_log2 q) \<le> q" "q < pow2 (floor_log2 q + 1)"
    using floor_log2_bounds [OF assms] by simp_all
  show "(if - 1022 \<le> floor_log2 q then pow2 (floor_log2 q) else 0) \<le> q"
    using b(1) assms by simp
  have "pow2 (floor_log2 q + 1) \<le> pow2 (max (floor_log2 q) (- 1022) + 1)"
    by (rule pow2_le) simp
  then show "q < pow2 (max (floor_log2 q) (- 1022) + 1)" using b(2) by linarith
qed

lemma ulp_of_same_binade:
  assumes "0 < q" "0 < v"
    and "(if - 1022 \<le> floor_log2 q then pow2 (floor_log2 q) else 0) \<le> v"
    and "v < pow2 (max (floor_log2 q) (- 1022) + 1)"
  shows "ulp_of v = ulp_of q"
proof (cases "- 1022 \<le> floor_log2 q")
  case True
  then have "pow2 (floor_log2 q) \<le> v" "v < pow2 (floor_log2 q + 1)"
    using assms(3,4) by (simp_all add: max_def)
  then have "floor_log2 v = floor_log2 q" by (rule floor_log2_unique)
  then show ?thesis using assms(1,2) by (simp add: ulp_of_def)
next
  case False
  then have v: "v < pow2 (- 1021)" using assms(4) by (simp add: max_def)
  have "pow2 (floor_log2 v) \<le> v" using floor_log2_bounds [OF assms(2)] by simp
  then have "pow2 (floor_log2 v) < pow2 (- 1021)" using v by linarith
  then have "floor_log2 v < - 1021" by (simp add: pow2_less_iff)
  then show ?thesis using False assms(1,2) by (simp add: ulp_of_def max_def)
qed

text \<open>Both ends of the binade are whole multiples of the spacing.\<close>

lemma binade_ends:
  assumes "0 < q"
  shows "(if - 1022 \<le> floor_log2 q then pow2 (floor_log2 q) else 0)
           = of_int (if - 1022 \<le> floor_log2 q then 2 ^ 52 else 0) * ulp_of q"
    and "pow2 (max (floor_log2 q) (- 1022) + 1) = of_int (2 ^ 53) * ulp_of q"
proof -
  have p52: "pow2 52 = 2 ^ 52" "pow2 53 = 2 ^ 53"
    using pow2_nat [of 52] pow2_nat [of 53] by simp_all
  have a: "pow2 (e - 52 + 52) = pow2 52 * pow2 (e - 52)" for e
    using pow2_add [of "e - 52" 52] by (simp add: mult.commute)
  have b: "pow2 (e - 52 + 53) = pow2 53 * pow2 (e - 52)" for e
    using pow2_add [of "e - 52" 53] by (simp add: mult.commute)
  have a': "pow2 e = 2 ^ 52 * pow2 (e - 52)" for e
    using a [of e] by (simp add: p52)
  have b': "pow2 (e + 1) = 2 ^ 53 * pow2 (e - 52)" for e
  proof -
    have "e - 52 + 53 = e + 1" by simp
    then have "pow2 (e + 1) = pow2 53 * pow2 (e - 52)" using b [of e] by (simp only:)
    then show ?thesis by (simp only: p52)
  qed
  show "(if - 1022 \<le> floor_log2 q then pow2 (floor_log2 q) else 0)
           = of_int (if - 1022 \<le> floor_log2 q then 2 ^ 52 else 0) * ulp_of q"
    using assms a' [of "floor_log2 q"] by (simp add: ulp_of_def max_def)
  show "pow2 (max (floor_log2 q) (- 1022) + 1) = of_int (2 ^ 53) * ulp_of q"
    using assms b' [of "max (floor_log2 q) (- 1022)"] by (simp add: ulp_of_def)
qed

lemma binade_grid:
  assumes "0 < q"
  obtains L :: int where "0 \<le> L"
    and "of_int L * ulp_of q \<le> q" and "q < of_int (2 ^ 53) * ulp_of q"
    and "\<And>v. 0 < v \<Longrightarrow> of_int L * ulp_of q \<le> v \<Longrightarrow> v < of_int (2 ^ 53) * ulp_of q
            \<Longrightarrow> ulp_of v = ulp_of q"
proof -
  define L :: int where "L = (if - 1022 \<le> floor_log2 q then 2 ^ 52 else 0)"
  have lo: "(if - 1022 \<le> floor_log2 q then pow2 (floor_log2 q) else 0) = of_int L * ulp_of q"
    unfolding L_def by (rule binade_ends(1) [OF assms])
  have hi: "pow2 (max (floor_log2 q) (- 1022) + 1) = of_int (2 ^ 53) * ulp_of q"
    by (rule binade_ends(2) [OF assms])
  show ?thesis
  proof (rule that [of L])
    show "0 \<le> L" by (simp add: L_def)
    show "of_int L * ulp_of q \<le> q"
      using binade_bounds(1) [OF assms] unfolding lo .
    show "q < of_int (2 ^ 53) * ulp_of q"
      using binade_bounds(2) [OF assms] unfolding hi .
    show "ulp_of v = ulp_of q"
      if "0 < v" "of_int L * ulp_of q \<le> v" "v < of_int (2 ^ 53) * ulp_of q" for v
      using ulp_of_same_binade [OF assms that(1)] that(2,3) unfolding lo hi by blast
  qed
qed

lemma scaled_distance:
  fixes u q :: rat
  assumes "0 < u"
  shows "\<bar>of_int k * u - q\<bar> = \<bar>of_int k - q / u\<bar> * u"
proof -
  have "q / u * u = q" using assms by simp
  then have "of_int k * u - q = (of_int k - q / u) * u"
    by (simp add: left_diff_distrib)
  then show ?thesis using assms by (simp add: abs_mult)
qed

lemma nearest_multiple:
  fixes u q :: rat
  assumes "0 < u"
  shows "\<bar>of_int (round_half_even (q / u)) * u - q\<bar> \<le> \<bar>of_int m * u - q\<bar>"
  unfolding scaled_distance [OF assms]
  using round_half_even_nearest [of "q / u" m] assms by (simp add: mult_right_mono)

lemma tie_multiple:
  fixes u q :: rat
  assumes "0 < u" "m \<noteq> round_half_even (q / u)"
    and "\<bar>of_int m * u - q\<bar> = \<bar>of_int (round_half_even (q / u)) * u - q\<bar>"
  shows "even (round_half_even (q / u))"
proof -
  have "\<bar>of_int m - q / u\<bar> * u = \<bar>of_int (round_half_even (q / u)) - q / u\<bar> * u"
    using assms(3) unfolding scaled_distance [OF assms(1)] .
  then have "\<bar>of_int m - q / u\<bar> = \<bar>of_int (round_half_even (q / u)) - q / u\<bar>"
    using assms(1) by simp
  then show ?thesis using assms(2) by (rule round_half_even_tie [rotated])
qed

text \<open>A double inside the binade of \<open>q\<close> is a whole multiple of the spacing at \<open>q\<close>.\<close>

lemma double_is_multiple:
  assumes "is_binary64 d" "0 \<le> d" "ulp_of d = u \<or> d = 0"
  shows "\<exists>m. d = of_int m * u"
proof (cases "d = 0")
  case True
  then have "d = of_int 0 * u" by simp
  then show ?thesis by blast
next
  case False
  then have "ulp_of d = u" using assms(3) by simp
  moreover have "of_int \<lfloor>\<bar>d\<bar> / ulp_of d\<rfloor> = \<bar>d\<bar> / ulp_of d"
    using assms(1) False unfolding is_binary64_def by blast
  ultimately have e: "of_int \<lfloor>d / u\<rfloor> = d / u" using assms(2) by simp
  have "0 < u" using \<open>ulp_of d = u\<close> ulp_of_pos [of d] by simp
  then have du: "d = d / u * u" by simp
  have "d = of_int \<lfloor>d / u\<rfloor> * u" by (subst e) (rule du)
  then show ?thesis by blast
qed

text \<open>Rounding a positive \<open>q\<close> to a multiple of its spacing gives a nearest double.\<close>

lemma nearest_pos:
  assumes "0 < q" "is_binary64 d"
  shows "\<bar>of_int (round_half_even (q / ulp_of q)) * ulp_of q - q\<bar> \<le> \<bar>d - q\<bar>"
proof -
  define u where "u = ulp_of q"
  define n where "n = round_half_even (q / u)"
  have u: "0 < u" unfolding u_def by (rule ulp_of_pos)
  obtain L :: int where L: "0 \<le> L" "of_int L * u \<le> q" "q < of_int (2 ^ 53) * u"
    "\<And>v. 0 < v \<Longrightarrow> of_int L * u \<le> v \<Longrightarrow> v < of_int (2 ^ 53) * u \<Longrightarrow> ulp_of v = u"
    using binade_grid [OF assms(1)] unfolding u_def by metis
  have near: "\<bar>of_int n * u - q\<bar> \<le> \<bar>of_int m * u - q\<bar>" for m
    unfolding n_def by (rule nearest_multiple [OF u])
  have "\<bar>of_int n * u - q\<bar> \<le> \<bar>d - q\<bar>"
  proof -
    consider (above) "of_int (2 ^ 53) * u \<le> d" | (below) "d < of_int L * u"
      | (inside) "of_int L * u \<le> d" "d < of_int (2 ^ 53) * u" by linarith
    then show ?thesis
    proof cases
      case above
      then have "\<bar>of_int (2 ^ 53) * u - q\<bar> \<le> \<bar>d - q\<bar>" using L(3) by linarith
      then show ?thesis using near [of "2 ^ 53"] by linarith
    next
      case below
      then have "\<bar>of_int L * u - q\<bar> \<le> \<bar>d - q\<bar>" using L(2) by linarith
      then show ?thesis using near [of L] by linarith
    next
      case inside
      have "0 \<le> of_int L * u" using L(1) u by simp
      then have d0: "0 \<le> d" using inside(1) by linarith
      have "ulp_of d = u \<or> d = 0" using L(4) [of d] inside d0 by fastforce
      then obtain m where "d = of_int m * u"
        using double_is_multiple [OF assms(2) d0] by blast
      then show ?thesis using near [of m] by simp
    qed
  qed
  then show ?thesis by (simp only: n_def u_def)
qed

lemma tie_pos:
  assumes "0 < q" "is_binary64 d"
    and "d \<noteq> of_int (round_half_even (q / ulp_of q)) * ulp_of q"
    and "\<bar>d - q\<bar> = \<bar>of_int (round_half_even (q / ulp_of q)) * ulp_of q - q\<bar>"
  shows "even (round_half_even (q / ulp_of q))"
proof -
  define u where "u = ulp_of q"
  define n where "n = round_half_even (q / u)"
  have u: "0 < u" unfolding u_def by (rule ulp_of_pos)
  obtain L :: int where L: "0 \<le> L" "of_int L * u \<le> q" "q < of_int (2 ^ 53) * u"
    "\<And>v. 0 < v \<Longrightarrow> of_int L * u \<le> v \<Longrightarrow> v < of_int (2 ^ 53) * u \<Longrightarrow> ulp_of v = u"
    using binade_grid [OF assms(1)] unfolding u_def by metis
  have near: "\<bar>of_int n * u - q\<bar> \<le> \<bar>of_int m * u - q\<bar>" for m
    unfolding n_def by (rule nearest_multiple [OF u])
  have ne: "d \<noteq> of_int n * u" and eq: "\<bar>d - q\<bar> = \<bar>of_int n * u - q\<bar>"
    using assms(3,4) unfolding n_def u_def by blast+
  have "\<exists>m. d = of_int m * u"
  proof -
    consider (above) "of_int (2 ^ 53) * u \<le> d" | (below) "d < of_int L * u"
      | (inside) "of_int L * u \<le> d" "d < of_int (2 ^ 53) * u" by linarith
    then show ?thesis
    proof cases
      case above
      have "d = of_int (2 ^ 53) * u"
        using above L(3) eq near [of "2 ^ 53"] by linarith
      then show ?thesis by blast
    next
      case below
      have False using below L(2) eq near [of L] by linarith
      then show ?thesis ..
    next
      case inside
      have "0 \<le> of_int L * u" using L(1) u by simp
      then have d0: "0 \<le> d" using inside(1) by linarith
      have "ulp_of d = u \<or> d = 0" using L(4) [of d] inside d0 by fastforce
      then show ?thesis using double_is_multiple [OF assms(2) d0] by blast
    qed
  qed
  then obtain m where m: "d = of_int m * u" by blast
  then have "m \<noteq> n" using ne by auto
  then have "even n"
    unfolding n_def using eq unfolding m n_def by (rule tie_multiple [OF u])
  then show ?thesis by (simp only: n_def u_def)
qed

text \<open>
  The rounded value of a positive \<open>q\<close> is zero, the upper end of the binade of \<open>q\<close>, or a
  number inside that binade with the spacing of \<open>q\<close>.
\<close>

lemma rounded_pos:
  assumes "0 < q"
  defines "n \<equiv> round_half_even (q / ulp_of q)"
  shows "n = 0
         \<or> (n = 2 ^ 53 \<and> ulp_of (of_int n * ulp_of q) = 2 * ulp_of q)
         \<or> (0 < n \<and> n < 2 ^ 53 \<and> ulp_of (of_int n * ulp_of q) = ulp_of q)"
proof -
  define u where "u = ulp_of q"
  define E where "E = max (floor_log2 q) (- 1022)"
  have u: "0 < u" unfolding u_def by (rule ulp_of_pos)
  have n: "n = round_half_even (q / u)" by (simp only: n_def u_def)
  obtain L :: int where L: "0 \<le> L" "of_int L * u \<le> q" "q < of_int (2 ^ 53) * u"
    "\<And>v. 0 < v \<Longrightarrow> of_int L * u \<le> v \<Longrightarrow> v < of_int (2 ^ 53) * u \<Longrightarrow> ulp_of v = u"
    using binade_grid [OF assms(1)] unfolding u_def by metis
  have near: "\<bar>of_int n * u - q\<bar> \<le> \<bar>of_int m * u - q\<bar>" for m
    unfolding n by (rule nearest_multiple [OF u])
  have "of_int n * u \<le> of_int (2 ^ 53) * u" using near [of "2 ^ 53"] L(3) by linarith
  then have "(of_int n :: rat) \<le> of_int (2 ^ 53)" using u by (simp only: mult_le_cancel_right_pos)
  then have n_hi: "n \<le> 2 ^ 53" by (simp only: of_int_le_iff)
  have "of_int L * u \<le> of_int n * u" using near [of L] L(2) by linarith
  then have "(of_int L :: rat) \<le> of_int n" using u by (simp only: mult_le_cancel_right_pos)
  then have n_lo: "L \<le> n" by (simp only: of_int_le_iff)
  consider (zero) "n = 0" | (top) "n = 2 ^ 53" | (mid) "0 < n" "n < 2 ^ 53"
    using n_hi n_lo L(1) by linarith
  then show ?thesis
  proof cases
    case zero
    then show ?thesis by simp
  next
    case top
    have uE: "u = pow2 (E - 52)" using assms(1) by (simp add: u_def ulp_of_def E_def)
    have v: "of_int n * u = pow2 (E + 1)"
      using binade_ends(2) [OF assms(1)] by (simp add: top u_def E_def)
    have "pow2 (E + 1) < pow2 (E + 1 + 1)" by (rule pow2_less) simp
    then have "floor_log2 (pow2 (E + 1)) = E + 1"
      by (intro floor_log2_unique) simp_all
    moreover have "- 1022 \<le> E" by (simp add: E_def)
    ultimately have "ulp_of (pow2 (E + 1)) = pow2 (E + 1 - 52)"
      using pow2_pos [of "E + 1"] by (simp add: ulp_of_def max_def)
    moreover have "E + 1 - 52 = E - 52 + 1" by simp
    ultimately have "ulp_of (pow2 (E + 1)) = 2 * pow2 (E - 52)"
      by (simp only: pow2_Suc)
    then have "ulp_of (pow2 (E + 1)) = 2 * u" by (simp only: uE [symmetric])
    then have "ulp_of (of_int n * u) = 2 * u" by (simp only: v)
    then show ?thesis using top by (simp only: u_def) simp
  next
    case mid
    have "0 < of_int n * u" using mid(1) u by simp
    moreover have "of_int L * u \<le> of_int n * u" using n_lo u by (simp add: mult_right_mono)
    moreover have "of_int n * u < of_int (2 ^ 53) * u"
    proof -
      have "(of_int n :: rat) < of_int (2 ^ 53)" using mid(2) by (simp only: of_int_less_iff)
      then show ?thesis using u by (simp only: mult_less_cancel_right_pos)
    qed
    ultimately have "ulp_of (of_int n * u) = u" by (rule L(4))
    then show ?thesis using mid by (simp only: u_def) simp
  qed
qed

lemma ulp_of_abs: "ulp_of \<bar>q\<bar> = ulp_of q"
  by (simp add: ulp_of_def)

lemma is_binary64_abs: "is_binary64 \<bar>q\<bar> = is_binary64 q"
  by (simp add: is_binary64_def ulp_of_abs)

text \<open>What \<open>round_binary64\<close> returns, by the rounded magnitude.\<close>

lemma float_value_round_binary64:
  assumes "q \<noteq> 0"
  shows "float_value (round_binary64 q)
           = (if pow2 1024 \<le> of_int (round_half_even (\<bar>q\<bar> / ulp_of \<bar>q\<bar>)) * ulp_of \<bar>q\<bar>
              then None
              else Some ((if 0 < q then 1 else - 1)
                         * (of_int (round_half_even (\<bar>q\<bar> / ulp_of \<bar>q\<bar>)) * ulp_of \<bar>q\<bar>)))"
  using assms by (simp add: round_binary64_def Let_def ulp_of_abs)

lemma round_binary64_nearest:
  assumes "float_value (round_binary64 q) = Some v" "is_binary64 d"
  shows "\<bar>v - q\<bar> \<le> \<bar>d - q\<bar>"
proof (cases "q = 0")
  case True
  then show ?thesis using assms(1) by (simp add: round_binary64_def)
next
  case False
  define p where "p = \<bar>q\<bar>"
  define r where "r = of_int (round_half_even (p / ulp_of p)) * ulp_of p"
  have p: "0 < p" using False by (simp add: p_def)
  have v: "v = (if 0 < q then 1 else - 1) * r"
    using assms(1) unfolding float_value_round_binary64 [OF False] p_def [symmetric]
      r_def [symmetric] by (simp split: if_splits)
  show ?thesis
  proof (cases "0 < q")
    case True
    then have "p = q" by (simp add: p_def)
    then show ?thesis
      using nearest_pos [OF p assms(2)] True unfolding r_def [symmetric] v by simp
  next
    case neg: False
    then have pq: "p = - q" using False by (simp add: p_def)
    have "is_binary64 (- d)" using assms(2) by (simp add: is_binary64_minus)
    from nearest_pos [OF p this]
    have "\<bar>r - p\<bar> \<le> \<bar>- d - p\<bar>" unfolding r_def [symmetric] .
    then show ?thesis using neg unfolding v pq by simp
  qed
qed

lemma rounded_is_binary64:
  assumes "0 < p"
  defines "r \<equiv> of_int (round_half_even (p / ulp_of p)) * ulp_of p"
  assumes "r < pow2 1024"
  shows "is_binary64 r" and "even (round_half_even (p / ulp_of p)) \<Longrightarrow> even \<lfloor>r / ulp_of r\<rfloor>"
proof -
  define u where "u = ulp_of p"
  define n where "n = round_half_even (p / u)"
  have u: "0 < u" unfolding u_def by (rule ulp_of_pos)
  have r: "r = of_int n * u" by (simp only: r_def n_def u_def)
  consider (zero) "n = 0" | (top) "n = 2 ^ 53" "ulp_of r = 2 * u"
    | (mid) "0 < n" "n < 2 ^ 53" "ulp_of r = u"
    using rounded_pos [OF assms(1)] unfolding u_def [symmetric] n_def [symmetric] r [symmetric]
    by blast
  then have "is_binary64 r \<and> (even n \<longrightarrow> even \<lfloor>r / ulp_of r\<rfloor>)"
  proof cases
    case zero
    then show ?thesis by (simp add: r is_binary64_def)
  next
    case top
    have "r / ulp_of r = r / (2 * u)" by (simp only: top(2))
    also have "\<dots> = of_int (2 ^ 52)" using u by (simp add: r top(1))
    finally have "r / ulp_of r = of_int (2 ^ 52)" .
    moreover have "0 \<le> r" using u by (simp add: r top)
    ultimately show ?thesis
      using assms(3) unfolding is_binary64_def by (simp del: of_int_numeral of_int_power)
  next
    case mid
    have "r / ulp_of r = r / u" by (simp only: mid(3))
    also have "\<dots> = of_int n" using u by (simp add: r)
    finally have "r / ulp_of r = of_int n" .
    moreover have "0 \<le> r" using u mid(1) by (simp add: r)
    ultimately show ?thesis
      using assms(3) unfolding is_binary64_def by simp
  qed
  then show "is_binary64 r" and "even (round_half_even (p / ulp_of p)) \<Longrightarrow> even \<lfloor>r / ulp_of r\<rfloor>"
    unfolding n_def u_def by blast+
qed

lemma rounded_nonneg:
  assumes "0 < p"
  shows "0 \<le> of_int (round_half_even (p / ulp_of p)) * ulp_of p"
proof -
  have "0 \<le> round_half_even (p / ulp_of p)"
    using rounded_pos [OF assms] by auto
  then show ?thesis using ulp_of_pos [of p] by simp
qed

lemma round_binary64_is_binary64:
  assumes "float_value (round_binary64 q) = Some v"
  shows "is_binary64 v"
proof (cases "q = 0")
  case True
  then show ?thesis using assms by (simp add: round_binary64_def is_binary64_def)
next
  case False
  define p where "p = \<bar>q\<bar>"
  define r where "r = of_int (round_half_even (p / ulp_of p)) * ulp_of p"
  have p: "0 < p" using False by (simp add: p_def)
  have v: "v = (if 0 < q then 1 else - 1) * r" and bound: "r < pow2 1024"
    using assms unfolding float_value_round_binary64 [OF False] p_def [symmetric]
      r_def [symmetric] by (simp_all split: if_splits)
  have "is_binary64 r"
    using rounded_is_binary64(1) [OF p] bound unfolding r_def [symmetric] by blast
  then show ?thesis unfolding v by (simp add: is_binary64_minus)
qed

lemma round_binary64_tie_even:
  assumes "float_value (round_binary64 q) = Some v" "is_binary64 d"
    and "d \<noteq> v" "\<bar>d - q\<bar> = \<bar>v - q\<bar>"
  shows "even \<lfloor>\<bar>v\<bar> / ulp_of v\<rfloor>"
proof (cases "q = 0")
  case True
  then have "v = 0" using assms(1) by (simp add: round_binary64_def)
  then show ?thesis by simp
next
  case False
  define p where "p = \<bar>q\<bar>"
  define r where "r = of_int (round_half_even (p / ulp_of p)) * ulp_of p"
  have p: "0 < p" using False by (simp add: p_def)
  have v: "v = (if 0 < q then 1 else - 1) * r" and bound: "r < pow2 1024"
    using assms(1) unfolding float_value_round_binary64 [OF False] p_def [symmetric]
      r_def [symmetric] by (simp_all split: if_splits)
  have r0: "0 \<le> r" unfolding r_def by (rule rounded_nonneg [OF p])
  define d' where "d' = (if 0 < q then d else - d)"
  have d': "is_binary64 d'" using assms(2) by (simp add: d'_def is_binary64_minus)
  have ne: "d' \<noteq> r" using assms(3) unfolding v d'_def by (auto split: if_splits)
  have eq: "\<bar>d' - p\<bar> = \<bar>r - p\<bar>"
    using assms(4) False unfolding v d'_def p_def by (auto split: if_splits)
  have "even (round_half_even (p / ulp_of p))"
    using tie_pos [OF p d'] ne eq unfolding r_def by blast
  then have "even \<lfloor>r / ulp_of r\<rfloor>"
    using rounded_is_binary64(2) [OF p] bound unfolding r_def [symmetric] by blast
  moreover have "\<bar>v\<bar> = r" "ulp_of v = ulp_of r"
    using r0 unfolding v by (simp_all add: ulp_of_minus)
  ultimately show ?thesis by simp
qed

lemma round_binary64_sign: "sign_bit (round_binary64 q) = (q < 0)"
proof (cases "q = 0")
  case True
  then show ?thesis by (simp add: round_binary64_def)
next
  case False
  define r where "r = of_int (round_half_even (\<bar>q\<bar> / ulp_of \<bar>q\<bar>)) * ulp_of \<bar>q\<bar>"
  have r0: "0 \<le> r"
    unfolding r_def using False by (intro rounded_nonneg) simp
  have rb: "round_binary64 q =
      (if pow2 1024 \<le> r then (if 0 < q then PosInf else NegInf)
       else if r = 0 then (if 0 < q then Finite 0 else NegZero)
       else Finite (if 0 < q then r else - r))"
    using False by (simp add: round_binary64_def Let_def ulp_of_abs ulp_of_minus r_def)
  show ?thesis
    unfolding rb using r0 False by auto
qed

lemma round_binary64_not_nan: "round_binary64 q \<noteq> NaN"
  by (simp add: round_binary64_def Let_def)

lemma pow2_le_iff: "pow2 a \<le> pow2 b \<longleftrightarrow> a \<le> b"
  using pow2_less_iff [of b a] by (auto simp: not_less [symmetric])

lemma rounded_bounds:
  assumes "0 < p"
  defines "r \<equiv> of_int (round_half_even (p / ulp_of p)) * ulp_of p"
  shows "(if - 1022 \<le> floor_log2 p then pow2 (floor_log2 p) else 0) \<le> r"
    and "r \<le> pow2 (max (floor_log2 p) (- 1022) + 1)"
    and "\<bar>r - p\<bar> \<le> ulp_of p / 2"
proof -
  define u where "u = ulp_of p"
  have u: "0 < u" unfolding u_def by (rule ulp_of_pos)
  define L :: int where "L = (if - 1022 \<le> floor_log2 p then 2 ^ 52 else 0)"
  have lo: "(if - 1022 \<le> floor_log2 p then pow2 (floor_log2 p) else 0) = of_int L * u"
    unfolding L_def u_def by (rule binade_ends(1) [OF assms(1)])
  have hi: "pow2 (max (floor_log2 p) (- 1022) + 1) = of_int (2 ^ 53) * u"
    unfolding u_def by (rule binade_ends(2) [OF assms(1)])
  have r: "r = of_int (round_half_even (p / u)) * u" by (simp only: r_def u_def)
  have near: "\<bar>r - p\<bar> \<le> \<bar>of_int m * u - p\<bar>" for m
    unfolding r by (rule nearest_multiple [OF u])
  have b: "of_int L * u \<le> p" "p < of_int (2 ^ 53) * u"
    using binade_bounds [OF assms(1)] unfolding lo hi by blast+
  show "(if - 1022 \<le> floor_log2 p then pow2 (floor_log2 p) else 0) \<le> r"
    unfolding lo using near [of L] b(1) by linarith
  show "r \<le> pow2 (max (floor_log2 p) (- 1022) + 1)"
    unfolding hi using near [of "2 ^ 53"] b(2) by linarith
  have "\<bar>of_int (round_half_even (p / u)) - p / u\<bar> * u \<le> 1 / 2 * u"
    using round_half_even_half [of "p / u"] u by (intro mult_right_mono) simp_all
  then show "\<bar>r - p\<bar> \<le> ulp_of p / 2"
    unfolding r scaled_distance [OF u] by (simp add: u_def)
qed

lemma pow2_1024: "pow2 1024 = of_int (2 ^ 53) * pow2 971" "pow2 971 = 2 * pow2 970"
  "pow2 1024 = 2 * pow2 1023"
proof -
  have "pow2 (53 + 971) = pow2 53 * pow2 971" by (rule pow2_add)
  moreover have "pow2 53 = 2 ^ 53" using pow2_nat [of 53] by simp
  ultimately show "pow2 1024 = of_int (2 ^ 53) * pow2 971" by simp
  show "pow2 971 = 2 * pow2 970" using pow2_Suc [of 970] by simp
  show "pow2 1024 = 2 * pow2 1023" using pow2_Suc [of 1023] by simp
qed

lemma overflow_pos:
  assumes "0 < p"
  defines "r \<equiv> of_int (round_half_even (p / ulp_of p)) * ulp_of p"
  shows "pow2 1024 \<le> r \<longleftrightarrow> pow2 1024 - pow2 970 \<le> p"
proof
  define E where "E = max (floor_log2 p) (- 1022)"
  have uE: "ulp_of p = pow2 (E - 52)" using assms(1) by (simp add: ulp_of_def E_def)
  assume big: "pow2 1024 \<le> r"
  have "r \<le> pow2 (E + 1)"
    using rounded_bounds(2) [OF assms(1)] unfolding r_def E_def .
  then have "pow2 1024 \<le> pow2 (E + 1)" using big by linarith
  then have E: "1023 \<le> E" by (simp add: pow2_le_iff)
  show "pow2 1024 - pow2 970 \<le> p"
  proof (cases "E = 1023")
    case True
    have "ulp_of p = pow2 971" by (simp add: uE True)
    then have "\<bar>r - p\<bar> \<le> pow2 970"
      using rounded_bounds(3) [OF assms(1)] unfolding r_def [symmetric]
      by (simp add: pow2_1024(2))
    then show ?thesis using big by linarith
  next
    case False
    then have "1024 \<le> floor_log2 p" using E by (simp add: E_def max_def split: if_splits)
    then have "pow2 1024 \<le> pow2 (floor_log2 p)" by (simp add: pow2_le_iff)
    moreover have "pow2 (floor_log2 p) \<le> p" using floor_log2_bounds [OF assms(1)] by simp
    moreover have "0 < pow2 970" by (rule pow2_pos)
    ultimately show ?thesis by linarith
  qed
next
  assume big: "pow2 1024 - pow2 970 \<le> p"
  have "pow2 970 \<le> pow2 1023" by (simp add: pow2_le_iff)
  then have "pow2 1023 \<le> p" using big by (simp add: pow2_1024(3))
  moreover have "p < pow2 (floor_log2 p + 1)" using floor_log2_bounds [OF assms(1)] by simp
  ultimately have "pow2 1023 < pow2 (floor_log2 p + 1)" by linarith
  then have fl: "1023 \<le> floor_log2 p" by (simp add: pow2_less_iff)
  show "pow2 1024 \<le> r"
  proof (cases "floor_log2 p = 1023")
    case False
    then have "1024 \<le> floor_log2 p" using fl by simp
    then have "pow2 1024 \<le> pow2 (floor_log2 p)" by (simp add: pow2_le_iff)
    moreover have "pow2 (floor_log2 p) \<le> r"
      using rounded_bounds(1) [OF assms(1)] fl unfolding r_def by simp
    ultimately show ?thesis by linarith
  next
    case True
    define u where "u = pow2 971"
    define x where "x = p / u"
    have u: "0 < u" unfolding u_def by (rule pow2_pos)
    have up: "ulp_of p = u" using assms(1) by (simp add: ulp_of_def True u_def)
    have "p < pow2 1024" using floor_log2_bounds [OF assms(1)] by (simp add: True)
    then have "p < of_int (2 ^ 53) * u" by (simp only: pow2_1024(1) u_def)
    then have x_hi: "x < of_int (2 ^ 53)" unfolding x_def using u by (simp add: pos_divide_less_eq)
    have "of_int (2 ^ 53) * u - u / 2 \<le> p"
      using big unfolding pow2_1024(1) u_def by (simp add: pow2_1024(2))
    then have "(of_int (2 ^ 53) - 1 / 2) * u \<le> p" by (simp add: left_diff_distrib)
    then have x_lo: "of_int (2 ^ 53) - 1 / 2 \<le> x"
      unfolding x_def using u by (simp only: pos_le_divide_eq)
    have "of_int (2 ^ 53 - 1) \<le> x" using x_lo by simp
    moreover have "x < of_int (2 ^ 53 - 1) + 1" using x_hi by simp
    ultimately have f: "\<lfloor>x\<rfloor> = 2 ^ 53 - 1" by (rule floor_unique)
    have odd: "odd (\<lfloor>x\<rfloor>)" by (simp add: f)
    have frac: "1 / 2 \<le> x - of_int \<lfloor>x\<rfloor>" using x_lo by (simp add: f)
    have "round_half_even x = \<lfloor>x\<rfloor> + 1"
      using round_half_even_cases [of x] frac odd by auto
    then have "round_half_even x = 2 ^ 53" by (simp add: f)
    then have "r = of_int (2 ^ 53) * u" by (simp only: r_def up x_def [symmetric])
    then show ?thesis by (simp only: pow2_1024(1) u_def)
  qed
qed

lemma round_binary64_overflow:
  "float_value (round_binary64 q) = None \<longleftrightarrow> pow2 1024 - pow2 970 \<le> \<bar>q\<bar>"
proof (cases "q = 0")
  case True
  have "pow2 970 < pow2 1024" by (simp add: pow2_less_iff)
  then show ?thesis using True by (simp add: round_binary64_def)
next
  case False
  then have p: "0 < \<bar>q\<bar>" by simp
  show ?thesis
    unfolding float_value_round_binary64 [OF False] using overflow_pos [OF p] by simp
qed

lemma round_binary64_exact:
  assumes "is_binary64 q"
  shows "float_value (round_binary64 q) = Some q"
proof (cases "q = 0")
  case True
  then show ?thesis by (simp add: round_binary64_def)
next
  case False
  with assms have bound: "\<bar>q\<bar> < pow2 1024"
    and whole: "of_int \<lfloor>\<bar>q\<bar> / ulp_of q\<rfloor> = \<bar>q\<bar> / ulp_of q"
    unfolding is_binary64_def by blast+
  have "round_half_even (of_int \<lfloor>\<bar>q\<bar> / ulp_of q\<rfloor>) = \<lfloor>\<bar>q\<bar> / ulp_of q\<rfloor>"
    by (simp add: round_half_even_def)
  then have h: "round_half_even (\<bar>q\<bar> / ulp_of q) = \<lfloor>\<bar>q\<bar> / ulp_of q\<rfloor>"
    unfolding whole .
  have "of_int (round_half_even (\<bar>q\<bar> / ulp_of q)) = \<bar>q\<bar> / ulp_of q"
    by (simp only: h whole)
  then have r: "of_int (round_half_even (\<bar>q\<bar> / ulp_of q)) * ulp_of q = \<bar>q\<bar>"
    using ulp_of_pos [of q] by simp
  show ?thesis
    unfolding round_binary64_def Let_def r using False bound by auto
qed

lemma round_binary64_double:
  assumes "is_binary64 q" "q \<noteq> 0"
  shows "round_binary64 q = Finite q"
proof -
  have "float_value (round_binary64 q) = Some q" by (rule round_binary64_exact [OF assms(1)])
  moreover have "round_binary64 q \<noteq> NegZero"
    using round_binary64_exact [OF assms(1)] assms(2) by (cases "round_binary64 q") auto
  ultimately show ?thesis by (cases "round_binary64 q") auto
qed

lemma round_binary64_zero: "round_binary64 0 = Finite 0"
  by (simp add: round_binary64_def)

text \<open>The four operations on finite doubles.\<close>

lemma float_add_finite:
  assumes "float_value a = Some x" "is_binary64 x" "float_value b = Some y" "is_binary64 y"
  shows "float_add a b
           = (if a = NegZero \<and> b = NegZero then NegZero else round_binary64 (x + y))"
proof -
  have d: "round_binary64 z = Finite z" if "is_binary64 z" for z
    using that round_binary64_double [of z] round_binary64_zero by (cases "z = 0") auto
  show ?thesis
    using assms d [of x] d [of y] by (cases a; cases b) auto
qed

lemma float_sub_finite:
  assumes "float_value a = Some x" "is_binary64 x" "float_value b = Some y" "is_binary64 y"
  shows "float_sub a b
           = (if a = NegZero \<and> b = Finite 0 then NegZero else round_binary64 (x - y))"
proof -
  have d: "round_binary64 z = Finite z" if "is_binary64 z" for z
    using that round_binary64_double [of z] round_binary64_zero by (cases "z = 0") auto
  have m: "is_binary64 (- y)" using assms(4) by (simp add: is_binary64_minus)
  show ?thesis
    using assms d [of x] d [of "- y"] m
    by (cases a; cases b) (auto simp: float_sub_def)
qed

lemma float_mul_finite:
  assumes "float_value a = Some x" "float_value b = Some y"
  shows "float_mul a b
           = (if x * y = 0 then signed_zero (sign_bit a \<noteq> sign_bit b)
              else round_binary64 (x * y))"
  using assms by (cases a; cases b) (auto simp: float_mul_def)

lemma float_truediv_finite:
  assumes "float_value a = Some x" "float_value b = Some y" "y \<noteq> 0"
  shows "float_truediv a b
           = Inr (if x = 0 then signed_zero (sign_bit a \<noteq> sign_bit b)
                  else round_binary64 (x / y))"
  using assms by (cases a; cases b) (auto simp: float_truediv_def)

lemma tenth_is_binary64: "is_binary64 (3602879701896397 / 36028797018963968)"
  by code_simp

lemma fifth_is_binary64: "is_binary64 (3602879701896397 / 18014398509481984)"
  by code_simp

lemma tenth_plus_fifth:
  "float_add (Finite (3602879701896397 / 36028797018963968))
             (Finite (3602879701896397 / 18014398509481984))
     = Finite (1351079888211149 / 4503599627370496)"
  by code_simp

text \<open>
  C3, as stated: for every pair of numbers the math endpoints return the exact arithmetic
  result. This fails on the floats the request carries: for the doubles nearest to 0.1 and
  0.2, \<open>add\<close> returns 0.3000000000000000444 (the double \<open>1351079888211149 / 2^52\<close>), which
  is not their sum.
\<close>

theorem add_numbers_tenth_fifth_not_exact:
  "is_binary64 (3602879701896397 / 36028797018963968)
   \<and> is_binary64 (3602879701896397 / 18014398509481984)
   \<and> add_numbers (Finite (3602879701896397 / 36028797018963968))
                  (Finite (3602879701896397 / 18014398509481984))
       = Inr (PyDict [(''result'', PyFloat (Finite (1351079888211149 / 4503599627370496))),
                      (''operation'', PyStr ''addition''),
                      (''inputs'', PyList [PyFloat (Finite (3602879701896397 / 36028797018963968)),
                                           PyFloat (Finite (3602879701896397 / 18014398509481984))])])
   \<and> (1351079888211149 / 4503599627370496 :: rat)
       \<noteq> 3602879701896397 / 36028797018963968 + 3602879701896397 / 18014398509481984"
proof -
  have "(1351079888211149 / 4503599627370496 :: rat)
          \<noteq> 3602879701896397 / 36028797018963968 + 3602879701896397 / 18014398509481984"
    by simp
  then show ?thesis
    using tenth_is_binary64 fifth_is_binary64
    by (simp add: add_numbers_def except_raise_400_def tenth_plus_fifth del: float_add.simps)
qed

lemma add_10_5: "float_add (Finite 10) (Finite 5) = Finite 15"
  by code_simp

lemma mul_6_7: "float_mul (Finite 6) (Finite 7) = Finite 42"
  by code_simp

lemma sub_20_8: "float_sub (Finite 20) (Finite 8) = Finite 12"
  by code_simp

lemma div_15_3: "float_truediv (Finite 15) (Finite 3) = Inr (Finite 5)"
  by code_simp

lemma round_binary64_5: "round_binary64 5 = Finite 5"
  by code_simp

lemma is_binary64_5: "is_binary64 5"
  by code_simp

lemma round_binary64_minus_5: "round_binary64 (- 5) = Finite (- 5)"
  by code_simp

lemma round_tenth_plus_fifth:
  "round_binary64 (3602879701896397 / 36028797018963968 + 3602879701896397 / 18014398509481984)
     = Finite (1351079888211149 / 4503599627370496)"
  by code_simp

lemma three_tenths_is_binary64: "is_binary64 (5404319552844595 / 18014398509481984)"
  by code_simp

text \<open>
  C3, amended: for finite doubles \<open>a\<close> and \<open>b\<close> (the two zeros included), with the values
  \<open>x\<close> and \<open>y\<close>, each math endpoint returns the correctly rounded result of its
  operation on \<open>x\<close> and \<open>y\<close>; divide for \<open>y \<noteq> 0\<close>. A zero result of \<open>multiply\<close> and
  \<open>divide\<close> carries the sign of the operands; \<open>add\<close> and \<open>subtract\<close> return \<open>-0.0\<close> only for
  \<open>-0.0 + -0.0\<close> and \<open>-0.0 - 0.0\<close>. Correctly rounded means, for every exact result \<open>q\<close>:

  \<^item> if the result is finite, it is a double, no double is nearer to \<open>q\<close>, and when another
    double is as near its own significand is even;
  \<^item> if \<open>q\<close> is a double, the result is \<open>q\<close>: the exact result;
  \<^item> the result is infinite exactly when \<open>\<bar>q\<bar>\<close> is at least \<open>2^1024 - 2^970\<close>, half a
    spacing below \<open>2^1024\<close>;
  \<^item> the result has the sign of \<open>q\<close> and is never \<open>nan\<close>.

  In particular \<open>add(10,5) = 15\<close>, \<open>multiply(6,7) = 42\<close>, \<open>subtract(20,8) = 12\<close>,
  \<open>divide(15,3) = 5\<close>.
\<close>

theorem math_endpoints_return_nearest_double:
  assumes "float_value a = Some x" and "is_binary64 x"
    and "float_value b = Some y" and "is_binary64 y"
  shows "add_numbers a b
           = Inr (PyDict [(''result'',
                            PyFloat (if a = NegZero \<and> b = NegZero then NegZero
                                     else round_binary64 (x + y))),
                          (''operation'', PyStr ''addition''),
                          (''inputs'', PyList [PyFloat a, PyFloat b])])
   \<and> multiply_numbers a b
           = Inr (PyDict [(''result'',
                            PyFloat (if x * y = 0 then signed_zero (sign_bit a \<noteq> sign_bit b)
                                     else round_binary64 (x * y))),
                          (''operation'', PyStr ''multiplication''),
                          (''inputs'', PyList [PyFloat a, PyFloat b])])
   \<and> subtract_numbers a b
           = Inr (PyDict [(''result'',
                            PyFloat (if a = NegZero \<and> b = Finite 0 then NegZero
                                     else round_binary64 (x - y))),
                          (''operation'', PyStr ''subtraction''),
                          (''inputs'', PyList [PyFloat a, PyFloat b])])
   \<and> (y \<noteq> 0 \<longrightarrow>
        divide_numbers a b
           = Inr (PyDict [(''result'',
                            PyFloat (if x = 0 then signed_zero (sign_bit a \<noteq> sign_bit b)
                                     else round_binary64 (x / y))),
                          (''operation'', PyStr ''division''),
                          (''inputs'', PyList [PyFloat a, PyFloat b])]))
   \<and> (\<forall>q v. float_value (round_binary64 q) = Some v \<longrightarrow>
          is_binary64 v
          \<and> (\<forall>d. is_binary64 d \<longrightarrow>
                 \<bar>v - q\<bar> \<le> \<bar>d - q\<bar>
                 \<and> (d \<noteq> v \<and> \<bar>d - q\<bar> = \<bar>v - q\<bar> \<longrightarrow> even \<lfloor>\<bar>v\<bar> / ulp_of v\<rfloor>)))
   \<and> (\<forall>q. is_binary64 q \<longrightarrow> float_value (round_binary64 q) = Some q)
   \<and> (\<forall>q. (float_value (round_binary64 q) = None) = (pow2 1024 - pow2 970 \<le> \<bar>q\<bar>))
   \<and> (\<forall>q. sign_bit (round_binary64 q) = (q < 0) \<and> round_binary64 q \<noteq> NaN)
   \<and> add_numbers (Finite 10) (Finite 5)
       = Inr (PyDict [(''result'', PyFloat (Finite 15)), (''operation'', PyStr ''addition''),
                      (''inputs'', PyList [PyFloat (Finite 10), PyFloat (Finite 5)])])
   \<and> multiply_numbers (Finite 6) (Finite 7)
       = Inr (PyDict [(''result'', PyFloat (Finite 42)),
                      (''operation'', PyStr ''multiplication''),
                      (''inputs'', PyList [PyFloat (Finite 6), PyFloat (Finite 7)])])
   \<and> subtract_numbers (Finite 20) (Finite 8)
       = Inr (PyDict [(''result'', PyFloat (Finite 12)),
                      (''operation'', PyStr ''subtraction''),
                      (''inputs'', PyList [PyFloat (Finite 20), PyFloat (Finite 8)])])
   \<and> divide_numbers (Finite 15) (Finite 3)
       = Inr (PyDict [(''result'', PyFloat (Finite 5)), (''operation'', PyStr ''division''),
                      (''inputs'', PyList [PyFloat (Finite 15), PyFloat (Finite 3)])])"
proof -
  have add: "add_numbers a b
           = Inr (PyDict [(''result'',
                            PyFloat (if a = NegZero \<and> b = NegZero then NegZero
                                     else round_binary64 (x + y))),
                          (''operation'', PyStr ''addition''),
                          (''inputs'', PyList [PyFloat a, PyFloat b])])"
    unfolding add_numbers_def except_raise_400_def Let_def float_add_finite [OF assms]
    by simp
  have mul: "multiply_numbers a b
           = Inr (PyDict [(''result'',
                            PyFloat (if x * y = 0 then signed_zero (sign_bit a \<noteq> sign_bit b)
                                     else round_binary64 (x * y))),
                          (''operation'', PyStr ''multiplication''),
                          (''inputs'', PyList [PyFloat a, PyFloat b])])"
    unfolding multiply_numbers_def except_raise_400_def Let_def
      float_mul_finite [OF assms(1,3)]
    by simp
  have sub: "subtract_numbers a b
           = Inr (PyDict [(''result'',
                            PyFloat (if a = NegZero \<and> b = Finite 0 then NegZero
                                     else round_binary64 (x - y))),
                          (''operation'', PyStr ''subtraction''),
                          (''inputs'', PyList [PyFloat a, PyFloat b])])"
    unfolding subtract_numbers_def except_raise_400_def Let_def float_sub_finite [OF assms]
    by simp
  have div: "y \<noteq> 0 \<longrightarrow>
        divide_numbers a b
           = Inr (PyDict [(''result'',
                            PyFloat (if x = 0 then signed_zero (sign_bit a \<noteq> sign_bit b)
                                     else round_binary64 (x / y))),
                          (''operation'', PyStr ''division''),
                          (''inputs'', PyList [PyFloat a, PyFloat b])])"
  proof
    assume y: "y \<noteq> 0"
    then have "\<not> float_eq_zero b"
      using assms(3) by (cases b) (auto simp: float_eq_zero_def)
    then show "divide_numbers a b
           = Inr (PyDict [(''result'',
                            PyFloat (if x = 0 then signed_zero (sign_bit a \<noteq> sign_bit b)
                                     else round_binary64 (x / y))),
                          (''operation'', PyStr ''division''),
                          (''inputs'', PyList [PyFloat a, PyFloat b])])"
      unfolding divide_numbers_def except_raise_400_def
        float_truediv_finite [OF assms(1,3) y]
      by (simp add: bind_exn_def)
  qed
  have rnd: "\<forall>q v. float_value (round_binary64 q) = Some v \<longrightarrow>
          is_binary64 v
          \<and> (\<forall>d. is_binary64 d \<longrightarrow>
                 \<bar>v - q\<bar> \<le> \<bar>d - q\<bar>
                 \<and> (d \<noteq> v \<and> \<bar>d - q\<bar> = \<bar>v - q\<bar> \<longrightarrow> even \<lfloor>\<bar>v\<bar> / ulp_of v\<rfloor>))"
    using round_binary64_is_binary64 round_binary64_nearest round_binary64_tie_even by blast
  have exact: "\<forall>q. is_binary64 q \<longrightarrow> float_value (round_binary64 q) = Some q"
    using round_binary64_exact by blast
  have over: "\<forall>q. (float_value (round_binary64 q) = None) = (pow2 1024 - pow2 970 \<le> \<bar>q\<bar>)"
    using round_binary64_overflow by blast
  have sgn: "\<forall>q. sign_bit (round_binary64 q) = (q < 0) \<and> round_binary64 q \<noteq> NaN"
    using round_binary64_sign round_binary64_not_nan by blast
  have i1: "add_numbers (Finite 10) (Finite 5)
       = Inr (PyDict [(''result'', PyFloat (Finite 15)), (''operation'', PyStr ''addition''),
                      (''inputs'', PyList [PyFloat (Finite 10), PyFloat (Finite 5)])])"
    by (simp add: add_numbers_def except_raise_400_def add_10_5 del: float_add.simps)
  have i2: "multiply_numbers (Finite 6) (Finite 7)
       = Inr (PyDict [(''result'', PyFloat (Finite 42)),
                      (''operation'', PyStr ''multiplication''),
                      (''inputs'', PyList [PyFloat (Finite 6), PyFloat (Finite 7)])])"
    by (simp add: multiply_numbers_def except_raise_400_def mul_6_7)
  have i3: "subtract_numbers (Finite 20) (Finite 8)
       = Inr (PyDict [(''result'', PyFloat (Finite 12)),
                      (''operation'', PyStr ''subtraction''),
                      (''inputs'', PyList [PyFloat (Finite 20), PyFloat (Finite 8)])])"
    by (simp add: subtract_numbers_def except_raise_400_def sub_20_8)
  have i4: "divide_numbers (Finite 15) (Finite 3)
       = Inr (PyDict [(''result'', PyFloat (Finite 5)), (''operation'', PyStr ''division''),
                      (''inputs'', PyList [PyFloat (Finite 15), PyFloat (Finite 3)])])"
    by (simp add: divide_numbers_def except_raise_400_def div_15_3 float_eq_zero_def
          bind_exn_def)
  show ?thesis
    by (intro conjI) (rule add mul sub div rnd exact over sgn i1 i2 i3 i4)+
qed

theorem math_endpoints_return_nearest_double_witness:
  "multiply_numbers (Finite 5) (Finite 0)
     = Inr (PyDict [(''result'', PyFloat (Finite 0)), (''operation'', PyStr ''multiplication''),
                    (''inputs'', PyList [PyFloat (Finite 5), PyFloat (Finite 0)])])
   \<and> subtract_numbers (Finite 5) (Finite 0)
     = Inr (PyDict [(''result'', PyFloat (Finite 5)), (''operation'', PyStr ''subtraction''),
                    (''inputs'', PyList [PyFloat (Finite 5), PyFloat (Finite 0)])])
   \<and> add_numbers NegZero (Finite 5)
     = Inr (PyDict [(''result'', PyFloat (Finite 5)), (''operation'', PyStr ''addition''),
                    (''inputs'', PyList [PyFloat NegZero, PyFloat (Finite 5)])])
   \<and> multiply_numbers NegZero (Finite 5)
     = Inr (PyDict [(''result'', PyFloat NegZero), (''operation'', PyStr ''multiplication''),
                    (''inputs'', PyList [PyFloat NegZero, PyFloat (Finite 5)])])
   \<and> subtract_numbers NegZero (Finite 5)
     = Inr (PyDict [(''result'', PyFloat (Finite (- 5))), (''operation'', PyStr ''subtraction''),
                    (''inputs'', PyList [PyFloat NegZero, PyFloat (Finite 5)])])
   \<and> divide_numbers NegZero (Finite 5)
     = Inr (PyDict [(''result'', PyFloat NegZero), (''operation'', PyStr ''division''),
                    (''inputs'', PyList [PyFloat NegZero, PyFloat (Finite 5)])])
   \<and> is_binary64 5 \<and> is_binary64 0
   \<and> is_binary64 (5404319552844595 / 18014398509481984)
   \<and> \<bar>1351079888211149 / 4503599627370496
        - (3602879701896397 / 36028797018963968 + 3602879701896397 / 18014398509481984) :: rat\<bar>
       \<le> \<bar>5404319552844595 / 18014398509481984
          - (3602879701896397 / 36028797018963968 + 3602879701896397 / 18014398509481984)\<bar>
   \<and> even \<lfloor>\<bar>1351079888211149 / 4503599627370496 :: rat\<bar>
             / ulp_of (1351079888211149 / 4503599627370496)\<rfloor>"
proof -
  have z: "is_binary64 0" by (simp add: is_binary64_def)
  have f5: "float_value (Finite 5) = Some 5" and f0: "float_value (Finite 0) = Some 0"
    and fz: "float_value NegZero = Some 0" by simp_all
  note A = math_endpoints_return_nearest_double [OF f5 is_binary64_5 f0 z]
  note B = math_endpoints_return_nearest_double [OF fz z f5 is_binary64_5]
  note A2 = A [THEN conjunct2]
  note A3 = A2 [THEN conjunct2]
  note A5 = A3 [THEN conjunct2, THEN conjunct2]
  note B2 = B [THEN conjunct2]
  note B3 = B2 [THEN conjunct2]
  note B4 = B3 [THEN conjunct2]
  have a1: "multiply_numbers (Finite 5) (Finite 0)
     = Inr (PyDict [(''result'', PyFloat (Finite 0)), (''operation'', PyStr ''multiplication''),
                    (''inputs'', PyList [PyFloat (Finite 5), PyFloat (Finite 0)])])"
    using A2 [THEN conjunct1] by (simp add: signed_zero_def)
  have a2: "subtract_numbers (Finite 5) (Finite 0)
     = Inr (PyDict [(''result'', PyFloat (Finite 5)), (''operation'', PyStr ''subtraction''),
                    (''inputs'', PyList [PyFloat (Finite 5), PyFloat (Finite 0)])])"
    using A3 [THEN conjunct1] by (simp add: round_binary64_5)
  have b1: "add_numbers NegZero (Finite 5)
     = Inr (PyDict [(''result'', PyFloat (Finite 5)), (''operation'', PyStr ''addition''),
                    (''inputs'', PyList [PyFloat NegZero, PyFloat (Finite 5)])])"
    using B [THEN conjunct1] by (simp add: round_binary64_5)
  have b2: "multiply_numbers NegZero (Finite 5)
     = Inr (PyDict [(''result'', PyFloat NegZero), (''operation'', PyStr ''multiplication''),
                    (''inputs'', PyList [PyFloat NegZero, PyFloat (Finite 5)])])"
    using B2 [THEN conjunct1] by (simp add: signed_zero_def)
  have b3: "subtract_numbers NegZero (Finite 5)
     = Inr (PyDict [(''result'', PyFloat (Finite (- 5))), (''operation'', PyStr ''subtraction''),
                    (''inputs'', PyList [PyFloat NegZero, PyFloat (Finite 5)])])"
    using B3 [THEN conjunct1] by (simp add: round_binary64_minus_5)
  have b4: "divide_numbers NegZero (Finite 5)
     = Inr (PyDict [(''result'', PyFloat NegZero), (''operation'', PyStr ''division''),
                    (''inputs'', PyList [PyFloat NegZero, PyFloat (Finite 5)])])"
    using B4 [THEN conjunct1] by (simp add: signed_zero_def)
  have tie: "\<bar>5404319552844595 / 18014398509481984
        - (3602879701896397 / 36028797018963968 + 3602879701896397 / 18014398509481984)\<bar>
      = \<bar>1351079888211149 / 4503599627370496
        - (3602879701896397 / 36028797018963968 + 3602879701896397 / 18014398509481984) :: rat\<bar>"
    by simp
  have ne: "(5404319552844595 / 18014398509481984 :: rat) \<noteq> 1351079888211149 / 4503599627370496"
    by simp
  have v: "float_value (round_binary64
        (3602879701896397 / 36028797018963968 + 3602879701896397 / 18014398509481984))
      = Some (1351079888211149 / 4503599627370496)"
    by (simp only: round_tenth_plus_fifth float_value.simps)
  note R = A5 [THEN conjunct1, rule_format, OF v, THEN conjunct2, rule_format,
               OF three_tenths_is_binary64]
  have c: "\<bar>1351079888211149 / 4503599627370496
        - (3602879701896397 / 36028797018963968 + 3602879701896397 / 18014398509481984) :: rat\<bar>
       \<le> \<bar>5404319552844595 / 18014398509481984
          - (3602879701896397 / 36028797018963968 + 3602879701896397 / 18014398509481984)\<bar>"
    by (rule R [THEN conjunct1])
  have e: "even \<lfloor>\<bar>1351079888211149 / 4503599627370496 :: rat\<bar>
             / ulp_of (1351079888211149 / 4503599627370496)\<rfloor>"
    by (rule R [THEN conjunct2, rule_format, OF conjI [OF ne tie]])
  show ?thesis
    by (intro conjI) (rule a1 a2 b1 b2 b3 b4 is_binary64_5 z three_tenths_is_binary64 c e)+
qed

text \<open>
  C4: for every \<open>a\<close>, the divide endpoint called with a divisor that compares equal to 0
  (\<open>0.0\<close> or \<open>-0.0\<close>) raises an \<open>HTTPException\<close> with status code 400: it returns no result.
\<close>

theorem divide_by_zero_raises_http_400:
  "float_eq_zero b \<Longrightarrow>
     divide_numbers a b = Inl (HTTPException 400 ''400: Cannot divide by zero'')"
  by (simp add: divide_numbers_def except_raise_400_def str_nat.simps digit_char_def)

theorem divide_by_zero_raises_http_400_witness:
  "float_eq_zero (Finite 0) \<and> float_eq_zero NegZero
   \<and> divide_numbers (Finite 15) (Finite 0)
       = Inl (HTTPException 400 ''400: Cannot divide by zero'')
   \<and> divide_numbers (Finite 15) NegZero
       = Inl (HTTPException 400 ''400: Cannot divide by zero'')"
proof -
  have z: "float_eq_zero (Finite 0)" "float_eq_zero NegZero"
    by (simp_all add: float_eq_zero_def)
  show ?thesis
    using divide_by_zero_raises_http_400 [OF z(1), of "Finite 15"]
          divide_by_zero_raises_http_400 [OF z(2), of "Finite 15"] z
    by simp
qed

section \<open>Properties of the tools and handlers that call services\<close>

lemmas io_defs = io_return_def io_raise_def io_pure_def io_bind_def io_call_def io_try_def
  io_except_raise_400_def

subsection \<open>The health check\<close>

text \<open>
  C2: for every reading of the clock and every trace of earlier calls, the health check
  returns a dict whose \<open>status\<close> is \<open>healthy\<close> and whose \<open>services\<close> is the list of the six
  service names; it raises nothing and leaves the trace as it was, so it consults no
  service.
\<close>

theorem health_check_fixed_payload:
  "\<exists>v. health_check C tr = (Inr v, tr)
       \<and> dict_get v ''status'' = Some (PyStr ''healthy'')
       \<and> dict_get v ''services''
           = Some (PyList [PyStr ''math'', PyStr ''finance'', PyStr ''news'', PyStr ''music'',
                           PyStr ''data_analysis'', PyStr ''web_scraping''])"
  by (simp add: health_check_def io_return_def)

subsection \<open>The ticker of a cryptocurrency\<close>

lemma snd_get_crypto_price:
  "snd (get_crypto_price P Y symbol tr) =
     tr @ [YfTickerInfo (if endswith symbol ''-USD'' then symbol
                         else str_upper P symbol @ ''-USD'')]"
  by (simp add: get_crypto_price_def io_defs Let_def split: sum.splits prod.splits)

lemma usd_lower_not_upper: "endswith symbol ''-usd'' \<Longrightarrow> \<not> endswith symbol ''-USD''"
  by (auto simp: endswith_def suffix_def append_eq_append_conv)

lemma ascii_upper_usd:
  "endswith symbol ''-usd'' \<Longrightarrow> endswith (str_upper ascii_py symbol @ ''-USD'') ''-USD-USD''"
  by (auto simp: endswith_def suffix_def ascii_py_def upper_char_def)

text \<open>
  C10: \<open>get_crypto_price\<close> makes one request. For a symbol that does not end with \<open>-USD\<close>
  it asks for the upper-cased symbol followed by \<open>-USD\<close>; for a symbol that ends with
  \<open>-USD\<close> it asks for the symbol as given. With the ASCII \<open>str.upper\<close>, a symbol that ends
  with \<open>-usd\<close> is asked for as a ticker that ends with \<open>-USD-USD\<close>.
\<close>

theorem get_crypto_price_queries_ticker:
  "(\<not> endswith symbol ''-USD'' \<longrightarrow>
      snd (get_crypto_price P Y symbol tr) = tr @ [YfTickerInfo (str_upper P symbol @ ''-USD'')])
   \<and> (endswith symbol ''-USD'' \<longrightarrow>
      snd (get_crypto_price P Y symbol tr) = tr @ [YfTickerInfo symbol])
   \<and> (endswith symbol ''-usd'' \<longrightarrow>
      snd (get_crypto_price ascii_py Y symbol tr)
        = tr @ [YfTickerInfo (str_upper ascii_py symbol @ ''-USD'')]
      \<and> endswith (str_upper ascii_py symbol @ ''-USD'') ''-USD-USD'')"
  using usd_lower_not_upper [of symbol] ascii_upper_usd [of symbol]
  by (simp add: snd_get_crypto_price)

theorem get_crypto_price_queries_ticker_witness:
  "snd (get_crypto_price ascii_py (flaky_yfinance Map.empty) ''eth'' []) = [YfTickerInfo ''ETH-USD'']
   \<and> snd (get_crypto_price ascii_py (flaky_yfinance Map.empty) ''ETH-USD'' [])
       = [YfTickerInfo ''ETH-USD'']
   \<and> snd (get_crypto_price ascii_py (flaky_yfinance Map.empty) ''btc-usd'' [])
       = [YfTickerInfo ''BTC-USD-USD'']
   \<and> endswith ''BTC-USD-USD'' ''-USD-USD''"
  using get_crypto_price_queries_ticker
          [where symbol = "''eth''" and P = ascii_py and Y = "flaky_yfinance Map.empty"
             and tr = "[]"]
        get_crypto_price_queries_ticker
          [where symbol = "''ETH-USD''" and P = ascii_py and Y = "flaky_yfinance Map.empty"
             and tr = "[]"]
        get_crypto_price_queries_ticker
          [where symbol = "''btc-usd''" and P = ascii_py and Y = "flaky_yfinance Map.empty"
             and tr = "[]"]
  by (simp add: endswith_def suffix_to_prefix ascii_py_def upper_char_def)

subsection \<open>The title of a scraped page\<close>

text \<open>
  C7: when the page is fetched and parsed and the lower-cased prompt contains \<open>title\<close>,
  the handler makes the one request for the URL and returns a dict whose \<open>result\<close> is the
  text of the title tag of the page, or \<open>No title found\<close> when the page has no title tag.
\<close>

theorem scrape_title_prompt_gives_title_or_sentinel:
  assumes "requests_get W tr url = Inr response"
    and "raise_for_status W response = Inr ()"
    and "parse_html W response = Inr soup"
    and "str_contains (str_lower P prompt) ''title''"
  shows "\<exists>v. scrape_website P W C url prompt tr = (Inr v, tr @ [RequestsGet url])
           \<and> dict_get v ''result''
               = Some (PyStr (case soup_find_title W (remove_script_style W soup) of
                                Some title_text \<Rightarrow> title_text
                              | None \<Rightarrow> ''No title found''))"
  using assms
  by (simp add: scrape_website_def io_defs Let_def split: option.splits)

lemma example_title_prompt: "str_contains (str_lower ascii_py ''Page TITLE please'') ''title''"
  by (simp add: ascii_py_def lower_char_def)

theorem scrape_title_prompt_gives_title_or_sentinel_witness:
  "(\<exists>v. scrape_website ascii_py (table_web example_site) noon ''https://example.com''
            ''Page TITLE please'' []
          = (Inr v, [RequestsGet ''https://example.com''])
        \<and> dict_get v ''result'' = Some (PyStr ''Example Domain''))
   \<and> (\<exists>v. scrape_website ascii_py (table_web example_site) noon ''https://example.com/bare''
            ''Page TITLE please'' []
          = (Inr v, [RequestsGet ''https://example.com/bare''])
        \<and> dict_get v ''result'' = Some (PyStr ''No title found''))"
  using scrape_title_prompt_gives_title_or_sentinel
          [where W = "table_web example_site" and tr = "[]" and url = "''https://example.com''"
             and response = "the (example_site ''https://example.com'')"
             and soup = "snd (the (example_site ''https://example.com''))"
             and P = ascii_py and prompt = "''Page TITLE please''" and C = noon]
        scrape_title_prompt_gives_title_or_sentinel
          [where W = "table_web example_site" and tr = "[]"
             and url = "''https://example.com/bare''"
             and response = "the (example_site ''https://example.com/bare'')"
             and soup = "snd (the (example_site ''https://example.com/bare''))"
             and P = ascii_py and prompt = "''Page TITLE please''" and C = noon]
        example_title_prompt
  by (simp add: table_web_def example_site_def)

subsection \<open>Exceptions of services and libraries\<close>











































end
